theory Spec2Isabelle
  imports Complex_Main
begin

section \<open>Numbers, points and the vector library\<close>

text \<open>
  The ribbon builder of \<^verbatim>\<open>src/lib/ribbon.js\<close> computes with JavaScript numbers.
  They are modelled as exact reals: every theorem below is about the builder's
  arithmetic carried out exactly. The concrete paths used below have small
  integer coordinates, axis-parallel segments or segments whose length is an
  integer, and angles far from a multiple of ten degrees, so that rounding does
  not change a branch the source takes on them. A point is the three-element
  array \<^verbatim>\<open>[x, y, z]\<close>.
\<close>

type_synonym vec3 = "real \<times> real \<times> real"

fun vx :: "vec3 \<Rightarrow> real" where
  "vx (x, y, z) = x"

fun vy :: "vec3 \<Rightarrow> real" where
  "vy (x, y, z) = y"

fun vz :: "vec3 \<Rightarrow> real" where
  "vz (x, y, z) = z"

text \<open>
  The functions of \<^verbatim>\<open>vecks.vec3\<close> the builder imports (\<^verbatim>\<open>add\<close>, \<^verbatim>\<open>sub\<close>,
  \<^verbatim>\<open>cross\<close>, \<^verbatim>\<open>multiply\<close>, \<^verbatim>\<open>norm\<close>, \<^verbatim>\<open>neg\<close>, \<^verbatim>\<open>length\<close>), an external
  library with the standard Euclidean meaning. Normalising the zero vector
  divides zero by zero in the source, which a real number does not follow: the
  theorems below that speak of coordinates exclude segments of length zero by a
  hypothesis, and the others hold whatever the coordinates are.
\<close>

fun v3_add :: "vec3 \<Rightarrow> vec3 \<Rightarrow> vec3" where
  "v3_add (ax, ay, az) (bx, by, bz) = (ax + bx, ay + by, az + bz)"

fun v3_sub :: "vec3 \<Rightarrow> vec3 \<Rightarrow> vec3" where
  "v3_sub (ax, ay, az) (bx, by, bz) = (ax - bx, ay - by, az - bz)"

fun v3_cross :: "vec3 \<Rightarrow> vec3 \<Rightarrow> vec3" where
  "v3_cross (ax, ay, az) (bx, by, bz) =
     (ay * bz - az * by, az * bx - ax * bz, ax * by - ay * bx)"

fun v3_multiply :: "vec3 \<Rightarrow> real \<Rightarrow> vec3" where
  "v3_multiply (ax, ay, az) s = (ax * s, ay * s, az * s)"

fun v3_neg :: "vec3 \<Rightarrow> vec3" where
  "v3_neg (ax, ay, az) = (- ax, - ay, - az)"

fun v3_length :: "vec3 \<Rightarrow> real" where
  "v3_length (ax, ay, az) = sqrt (ax * ax + ay * ay + az * az)"

fun v3_norm :: "vec3 \<Rightarrow> vec3" where
  "v3_norm (ax, ay, az) =
     (ax / v3_length (ax, ay, az), ay / v3_length (ax, ay, az), az / v3_length (ax, ay, az))"

section \<open>Data model\<close>

text \<open>The class \<^verbatim>\<open>LineSegment\<close> and its constructor.\<close>

record LineSegment =
  fromPoint :: vec3
  toPoint :: vec3
  direction :: vec3
  segLength :: real

definition newLineSegment :: "vec3 \<Rightarrow> vec3 \<Rightarrow> LineSegment" where
  "newLineSegment a b =
     \<lparr> fromPoint = a, toPoint = b,
       direction = v3_norm (v3_sub b a),
       segLength = v3_length (v3_sub b a) \<rparr>"

text \<open>
  Rectangles and stubs are four-element arrays of points, cap supports and
  triangles three-element arrays.
\<close>

type_synonym quad = "vec3 \<times> vec3 \<times> vec3 \<times> vec3"
type_synonym triangle = "vec3 \<times> vec3 \<times> vec3"
type_synonym line = "vec3 \<times> vec3"

record options =
  options_width :: real
  options_closed :: "bool option"

record mesh =
  triangles :: "triangle list"
  outline :: "vec3 list"

text \<open>
  What a call can throw: the validation error of the two schemas, the error of
  the intersection module, and the runtime's TypeError on reading a property
  of \<^verbatim>\<open>undefined\<close>.
\<close>

datatype error = InvalidInput | DegenerateGeometry | TypeError

section \<open>The two required modules\<close>

text \<open>
  Modelled from the spec: \<^verbatim>\<open>lib/removeParallel2D.js\<close> is not among the sources.
  The spec (4.1) has it remove every interior point that is collinear, in the XY
  projection, with its immediate predecessor and successor, and never an
  endpoint. The spec's tolerance is not given; the model tests collinearity
  exactly.
\<close>

definition collinear2D :: "vec3 \<Rightarrow> vec3 \<Rightarrow> vec3 \<Rightarrow> bool" where
  "collinear2D a b c \<longleftrightarrow>
     (vx b - vx a) * (vy c - vy b) - (vy b - vy a) * (vx c - vx b) = 0"

fun removeInterior :: "vec3 \<Rightarrow> vec3 list \<Rightarrow> vec3 list" where
  "removeInterior a (b # c # ps) =
     (if collinear2D a b c then removeInterior b (c # ps)
      else b # removeInterior b (c # ps))"
| "removeInterior a ps = ps"

fun removeParallel2D :: "vec3 list \<Rightarrow> vec3 list" where
  "removeParallel2D [] = []"
| "removeParallel2D (a # ps) = a # removeInterior a ps"

text \<open>
  Modelled from the spec: \<^verbatim>\<open>lib/intersect2D.js\<close> is not among the sources. The
  spec (4.2) has it take two lines, each given by two points of which only X
  and Y are used, and return the intersection point of the two infinite lines
  with Z forced to 0, failing with DegenerateGeometry on parallel or coincident
  lines.
\<close>

definition det2D :: "line \<Rightarrow> line \<Rightarrow> real" where
  "det2D a b =
     (vx (fst a) - vx (snd a)) * (vy (fst b) - vy (snd b))
     - (vy (fst a) - vy (snd a)) * (vx (fst b) - vx (snd b))"

definition intersect2D :: "line \<Rightarrow> line \<Rightarrow> error + vec3" where
  "intersect2D a b =
     (let x1 = vx (fst a); y1 = vy (fst a); x2 = vx (snd a); y2 = vy (snd a);
          x3 = vx (fst b); y3 = vy (fst b); x4 = vx (snd b); y4 = vy (snd b);
          d = det2D a b
      in if d = 0 then Inl DegenerateGeometry
         else Inr (((x1 * y2 - y1 * x2) * (x3 - x4) - (x1 - x2) * (x3 * y4 - y3 * x4)) / d,
                   ((x1 * y2 - y1 * x2) * (y3 - y4) - (y1 - y2) * (x3 * y4 - y3 * x4)) / d,
                   0))"

section \<open>The ribbon builder\<close>

subsection \<open>Step 1: centre segments and their offsets\<close>

fun centerSegments :: "vec3 list \<Rightarrow> LineSegment list" where
  "centerSegments (a # b # ps) = newLineSegment a b # centerSegments (b # ps)"
| "centerSegments ps = []"

definition offsetDir :: "LineSegment \<Rightarrow> vec3" where
  "offsetDir centerSegment = v3_norm (v3_cross (0, 0, 1) (direction centerSegment))"

definition leftSegment :: "real \<Rightarrow> LineSegment \<Rightarrow> LineSegment" where
  "leftSegment width centerSegment =
     newLineSegment
       (v3_add (fromPoint centerSegment) (v3_multiply (offsetDir centerSegment) width))
       (v3_add (toPoint centerSegment) (v3_multiply (offsetDir centerSegment) width))"

definition rightSegment :: "real \<Rightarrow> LineSegment \<Rightarrow> LineSegment" where
  "rightSegment width centerSegment =
     newLineSegment
       (v3_add (fromPoint centerSegment) (v3_multiply (offsetDir centerSegment) (- width)))
       (v3_add (toPoint centerSegment) (v3_multiply (offsetDir centerSegment) (- width)))"

subsection \<open>Step 2: intersections of consecutive offset segments\<close>

text \<open>
  The loop calls the intersection module for the left pair, then for the right
  pair of every joint, and overwrites the third component of both results with
  0. An exception of the module leaves the builder at the first call that
  throws.
\<close>

fun setZ0 :: "vec3 \<Rightarrow> vec3" where
  "setZ0 (x, y, z) = (x, y, 0)"

fun intersections ::
  "(line \<Rightarrow> line \<Rightarrow> error + vec3) \<Rightarrow> LineSegment list \<Rightarrow> LineSegment list
     \<Rightarrow> error + (vec3 list \<times> vec3 list)" where
  "intersections ix (leftA # leftB # ls) (rightA # rightB # rs) =
     (case ix (fromPoint leftA, toPoint leftA) (fromPoint leftB, toPoint leftB) of
        Inl e \<Rightarrow> Inl e
      | Inr left3D \<Rightarrow>
         (case ix (fromPoint rightA, toPoint rightA) (fromPoint rightB, toPoint rightB) of
            Inl e \<Rightarrow> Inl e
          | Inr right3D \<Rightarrow>
             (case intersections ix (leftB # ls) (rightB # rs) of
                Inl e \<Rightarrow> Inl e
              | Inr (leftIntersections, rightIntersections) \<Rightarrow>
                  Inr (setZ0 left3D # leftIntersections, setZ0 right3D # rightIntersections))))"
| "intersections ix ls rs = Inr ([], [])"

subsection \<open>Step 3: resolving the joints\<close>

text \<open>
  One iteration of the joint loop. It reads \<^verbatim>\<open>leftStarts[i]\<close> and
  \<^verbatim>\<open>rightStarts[i]\<close>, and writes \<^verbatim>\<open>leftEnds[i]\<close>, \<^verbatim>\<open>rightEnds[i]\<close>,
  \<^verbatim>\<open>leftStarts[i + 1]\<close>, \<^verbatim>\<open>rightStarts[i + 1]\<close>, two stubs and one cap support.
\<close>

record joint =
  isLeft :: bool
  inside :: vec3
  leftEnd :: vec3
  rightEnd :: vec3
  leftStartNext :: vec3
  rightStartNext :: vec3
  stubFirst :: quad
  stubSecond :: quad
  support :: triangle

definition resolveJoint ::
  "real \<Rightarrow> LineSegment \<Rightarrow> LineSegment \<Rightarrow> vec3 \<Rightarrow> vec3 \<Rightarrow> vec3 \<Rightarrow> vec3 \<Rightarrow> joint" where
  "resolveJoint width centerSegment nextCenterSegment leftIntersection rightIntersection
       leftStart rightStart =
     (let leftIsShorter =
            v3_length (v3_sub leftIntersection leftStart)
              < v3_length (v3_sub rightIntersection rightStart);
          offset1 =
            (if leftIsShorter
             then v3_neg (v3_norm (v3_cross (0, 0, 1) (direction centerSegment)))
             else v3_norm (v3_cross (0, 0, 1) (direction nextCenterSegment)));
          offset2 =
            (if leftIsShorter
             then v3_neg (v3_norm (v3_cross (0, 0, 1) (direction nextCenterSegment)))
             else v3_norm (v3_cross (0, 0, 1) (direction centerSegment)));
          insideIntersection =
            (if leftIsShorter then leftIntersection else rightIntersection)
      in \<lparr> isLeft = leftIsShorter,
           inside = insideIntersection,
           leftEnd =
             (if leftIsShorter then insideIntersection
              else v3_add insideIntersection (v3_multiply offset2 (width * 2))),
           rightEnd =
             (if leftIsShorter then v3_add insideIntersection (v3_multiply offset1 (width * 2))
              else insideIntersection),
           leftStartNext =
             (if leftIsShorter then insideIntersection
              else v3_add insideIntersection (v3_multiply offset1 (width * 2))),
           rightStartNext =
             (if leftIsShorter then v3_add insideIntersection (v3_multiply offset2 (width * 2))
              else insideIntersection),
           stubFirst =
             (insideIntersection,
              toPoint centerSegment,
              v3_add (toPoint centerSegment) (v3_multiply offset2 width),
              v3_add insideIntersection (v3_multiply offset2 (width * 2))),
           stubSecond =
             (toPoint centerSegment,
              insideIntersection,
              v3_add insideIntersection (v3_multiply offset1 (width * 2)),
              v3_add (toPoint centerSegment) (v3_multiply offset1 width)),
           support =
             (v3_add (toPoint centerSegment) (v3_multiply offset2 width),
              toPoint centerSegment,
              v3_add (toPoint centerSegment) (v3_multiply offset1 width)) \<rparr>)"

text \<open>
  The loop over the joints. Iteration \<^verbatim>\<open>i\<close> reads only the start points that
  iteration \<^verbatim>\<open>i - 1\<close> wrote (the from-points of the first offset segments for
  \<^verbatim>\<open>i = 0\<close>), so the two current start points are passed along.
\<close>

fun resolve ::
  "real \<Rightarrow> LineSegment list \<Rightarrow> vec3 list \<Rightarrow> vec3 list \<Rightarrow> vec3 \<Rightarrow> vec3 \<Rightarrow> joint list" where
  "resolve width (centerSegment # nextCenterSegment # cs) (li # lis) (ri # ris)
       leftStart rightStart =
     (let j = resolveJoint width centerSegment nextCenterSegment li ri leftStart rightStart
      in j # resolve width (nextCenterSegment # cs) lis ris (leftStartNext j) (rightStartNext j))"
| "resolve width cs lis ris leftStart rightStart = []"

subsection \<open>Rectangles, stubs and cap supports\<close>

text \<open>
  The arrays the three loops leave behind: \<^verbatim>\<open>leftStarts\<close> begins with the
  from-point of the first left segment and \<^verbatim>\<open>leftEnds\<close> ends with the
  to-point of the last one (pushed after the joint loop), and likewise on the
  right. Rectangle \<^verbatim>\<open>i\<close> is
  \<^verbatim>\<open>[leftStarts[i], rightStarts[i], rightEnds[i], leftEnds[i]]\<close>.
\<close>

definition rectanglesOf :: "LineSegment list \<Rightarrow> LineSegment list \<Rightarrow> joint list \<Rightarrow> quad list" where
  "rectanglesOf leftSegments rightSegments js =
     (let leftStarts = fromPoint (hd leftSegments) # map leftStartNext js;
          rightStarts = fromPoint (hd rightSegments) # map rightStartNext js;
          leftEnds = map leftEnd js @ [toPoint (last leftSegments)];
          rightEnds = map rightEnd js @ [toPoint (last rightSegments)]
      in map (\<lambda>i. (leftStarts ! i, rightStarts ! i, rightEnds ! i, leftEnds ! i))
           [0..<length leftStarts])"

definition stubsOf :: "joint list \<Rightarrow> quad list" where
  "stubsOf js = concat (map (\<lambda>j. [stubFirst j, stubSecond j]) js)"

definition capSupportsOf :: "joint list \<Rightarrow> triangle list" where
  "capSupportsOf js = map support js"

subsection \<open>Triangles and outline\<close>

fun rectTriangles :: "quad \<Rightarrow> triangle list" where
  "rectTriangles (r0, r1, r2, r3) = [(r0, r1, r2), (r0, r2, r3)]"

fun rectOutline :: "quad \<Rightarrow> vec3 list" where
  "rectOutline (r0, r1, r2, r3) = [r1, r2, r3, r0]"

fun stubTriangles :: "quad \<Rightarrow> triangle list" where
  "stubTriangles (c0, c1, c2, c3) = [(c0, c1, c2), (c0, c2, c3)]"

fun stubOutline :: "quad \<Rightarrow> vec3 list" where
  "stubOutline (c0, c1, c2, c3) = [c2, c3]"

text \<open>
  The points an open path adds to the outline: the first two corners of the
  first rectangle and the last two of the last one. The builder comes here
  with at least one rectangle: \<^verbatim>\<open>leftStarts\<close> is never empty.
\<close>

fun openEdges :: "quad list \<Rightarrow> vec3 list" where
  "openEdges rectangles =
     (case (hd rectangles, last rectangles) of
        ((a0, a1, a2, a3), (b0, b1, b2, b3)) \<Rightarrow> [a0, a1, b2, b3])"

subsection \<open>The cap fan\<close>

text \<open>
  \<^verbatim>\<open>Math.atan2\<close>, with the value the language standard gives it on reals
  (signed zeros apart), and the quantities the fan loop computes from a cap
  support \<^verbatim>\<open>cs\<close>.
\<close>

definition atan2 :: "real \<Rightarrow> real \<Rightarrow> real" where
  "atan2 y x =
     (if 0 < x then arctan (y / x)
      else if x < 0 then (if 0 \<le> y then arctan (y / x) + pi else arctan (y / x) - pi)
      else if 0 < y then pi / 2
      else if y < 0 then - (pi / 2)
      else 0)"

definition sliceAngle :: real where
  "sliceAngle = 10"

fun startAngle :: "triangle \<Rightarrow> real" where
  "startAngle (cs0, cs1, cs2) =
     (let a = atan2 (vy cs2 - vy cs1) (vx cs2 - vx cs1) / pi * 180
      in if a < 0 then a + 360 else a)"

fun endAngle :: "triangle \<Rightarrow> real" where
  "endAngle (cs0, cs1, cs2) =
     (let a = atan2 (vy cs0 - vy cs1) (vx cs0 - vx cs1) / pi * 180;
          b = (if a < 0 then a + 360 else a)
      in if b = 0 then 360 else b)"

definition numSlices :: "triangle \<Rightarrow> int" where
  "numSlices cs = \<lfloor>(endAngle cs - startAngle cs) / sliceAngle\<rfloor>"

definition numIntermediatePoints :: "triangle \<Rightarrow> int" where
  "numIntermediatePoints cs = numSlices cs - 1"

definition rotationAngle :: "triangle \<Rightarrow> real" where
  "rotationAngle cs =
     (endAngle cs - startAngle cs) / of_int (numSlices cs) / 180 * pi"

text \<open>
  The loop \<^verbatim>\<open>for (i = 0; i < numIntermediatePoints; ++i)\<close> runs
  \<^verbatim>\<open>numIntermediatePoints\<close> times when that number is positive and not at
  all otherwise.
\<close>

fun radialPoints :: "triangle \<Rightarrow> vec3 list" where
  "radialPoints (cs0, cs1, cs2) =
     (let p = v3_sub cs2 cs1
      in [cs2]
         @ map (\<lambda>i. let theta = rotationAngle (cs0, cs1, cs2) * (real i + 1)
                    in v3_add (vx p * cos theta - vy p * sin theta,
                               vy p * cos theta + vx p * sin theta,
                               0) cs1)
             [0..<nat (numIntermediatePoints (cs0, cs1, cs2))]
         @ [cs0])"

fun fanTriangles :: "triangle \<Rightarrow> triangle list" where
  "fanTriangles (cs0, cs1, cs2) =
     map (\<lambda>i. (radialPoints (cs0, cs1, cs2) ! i, radialPoints (cs0, cs1, cs2) ! (i + 1), cs1))
       [0..<length (radialPoints (cs0, cs1, cs2)) - 1]"

fun fanOutline :: "triangle \<Rightarrow> vec3 list" where
  "fanOutline (cs0, cs1, cs2) =
     concat (map (\<lambda>i. [radialPoints (cs0, cs1, cs2) ! i, radialPoints (cs0, cs1, cs2) ! (i + 1)])
       [0..<length (radialPoints (cs0, cs1, cs2)) - 1])"

declare radialPoints.simps [simp del]
declare fanTriangles.simps [simp del]
declare fanOutline.simps [simp del]

definition assemble :: "bool \<Rightarrow> quad list \<Rightarrow> quad list \<Rightarrow> triangle list \<Rightarrow> mesh" where
  "assemble closedFlag rectangles stubs capSupports =
     \<lparr> triangles =
         concat (map rectTriangles rectangles)
         @ concat (map stubTriangles stubs)
         @ concat (map fanTriangles capSupports),
       outline =
         concat (map rectOutline rectangles)
         @ (if \<not> closedFlag then openEdges rectangles else [])
         @ concat (map stubOutline stubs)
         @ concat (map fanOutline capSupports) \<rparr>"

subsection \<open>The exported function\<close>

text \<open>
  Steps 1 to 3 for a validated input: the joints the loop of step 3 resolves.
  Reading \<^verbatim>\<open>leftSegments[0].from\<close> when the filtered path has left no segment
  is a TypeError; the intersection loop runs before it.
\<close>

definition jointsOf ::
  "(vec3 list \<Rightarrow> vec3 list) \<Rightarrow> (line \<Rightarrow> line \<Rightarrow> error + vec3) \<Rightarrow> vec3 list \<Rightarrow> real
     \<Rightarrow> error + joint list" where
  "jointsOf rp ix polygon width =
     (let cs = centerSegments (rp polygon);
          leftSegments = map (leftSegment width) cs;
          rightSegments = map (rightSegment width) cs
      in case intersections ix leftSegments rightSegments of
           Inl e \<Rightarrow> Inl e
         | Inr (leftIntersections, rightIntersections) \<Rightarrow>
             if cs = [] then Inl TypeError
             else Inr (resolve width cs leftIntersections rightIntersections
                         (fromPoint (hd leftSegments)) (fromPoint (hd rightSegments))))"

text \<open>The rectangles, the stubs and the cap supports handed to the last phase.\<close>

definition geometry ::
  "(vec3 list \<Rightarrow> vec3 list) \<Rightarrow> (line \<Rightarrow> line \<Rightarrow> error + vec3) \<Rightarrow> vec3 list \<Rightarrow> real
     \<Rightarrow> error + (quad list \<times> quad list \<times> triangle list)" where
  "geometry rp ix polygon width =
     (case jointsOf rp ix polygon width of
        Inl e \<Rightarrow> Inl e
      | Inr js \<Rightarrow>
          Inr (rectanglesOf
                 (map (leftSegment width) (centerSegments (rp polygon)))
                 (map (rightSegment width) (centerSegments (rp polygon))) js,
               stubsOf js, capSupportsOf js))"

text \<open>
  The exported function, with the two required modules \<^verbatim>\<open>removeParallel2D\<close>
  and \<^verbatim>\<open>intersect2D\<close> as the parameters \<open>rp\<close> and \<open>ix\<close>. The polygon schema
  asks for at least two elements and the options schema for a width greater
  than 0; a missing \<^verbatim>\<open>closed\<close> reads as false.
\<close>

definition ribbonWith ::
  "(vec3 list \<Rightarrow> vec3 list) \<Rightarrow> (line \<Rightarrow> line \<Rightarrow> error + vec3) \<Rightarrow> vec3 list \<Rightarrow> options
     \<Rightarrow> error + mesh" where
  "ribbonWith rp ix polygon opts =
     (if length polygon < 2 then Inl InvalidInput
      else if \<not> 0 < options_width opts then Inl InvalidInput
      else
        (let width = options_width opts;
             closedFlag = (case options_closed opts of None \<Rightarrow> False | Some b \<Rightarrow> b)
         in case geometry rp ix polygon width of
              Inl e \<Rightarrow> Inl e
            | Inr (rectangles, stubs, capSupports) \<Rightarrow>
                Inr (assemble closedFlag rectangles stubs capSupports)))"

definition ribbon :: "vec3 list \<Rightarrow> options \<Rightarrow> error + mesh" where
  "ribbon polygon opts = ribbonWith removeParallel2D intersect2D polygon opts"

section \<open>Properties stated about the builder\<close>

text \<open>A triangle, a quad and a resolved joint all of whose points have z = 0.\<close>

definition flatTriangle :: "triangle \<Rightarrow> bool" where
  "flatTriangle t \<longleftrightarrow> vz (fst t) = 0 \<and> vz (fst (snd t)) = 0 \<and> vz (snd (snd t)) = 0"

definition flatQuad :: "quad \<Rightarrow> bool" where
  "flatQuad q \<longleftrightarrow>
     vz (fst q) = 0 \<and> vz (fst (snd q)) = 0
     \<and> vz (fst (snd (snd q))) = 0 \<and> vz (snd (snd (snd q))) = 0"

definition flatJoint :: "joint \<Rightarrow> bool" where
  "flatJoint j \<longleftrightarrow>
     vz (inside j) = 0 \<and> vz (leftEnd j) = 0 \<and> vz (rightEnd j) = 0
     \<and> vz (leftStartNext j) = 0 \<and> vz (rightStartNext j) = 0
     \<and> flatQuad (stubFirst j) \<and> flatQuad (stubSecond j) \<and> flatTriangle (support j)"

text \<open>
  The inside intersections the joint loop chooses, one per joint, and the
  choice as the spec words it (4.3, step 3): the distances are measured from
  the from-points of the offset segments of the joint's first segment, and the
  side with the shorter distance is the inside corner.
\<close>

definition insideIntersections ::
  "(vec3 list \<Rightarrow> vec3 list) \<Rightarrow> (line \<Rightarrow> line \<Rightarrow> error + vec3) \<Rightarrow> vec3 list \<Rightarrow> real
     \<Rightarrow> error + vec3 list" where
  "insideIntersections rp ix polygon width =
     (case jointsOf rp ix polygon width of Inl e \<Rightarrow> Inl e | Inr js \<Rightarrow> Inr (map inside js))"

definition specInside :: "LineSegment \<Rightarrow> LineSegment \<Rightarrow> vec3 \<Rightarrow> vec3 \<Rightarrow> vec3" where
  "specInside leftSeg rightSeg leftIntersection rightIntersection =
     (if v3_length (v3_sub leftIntersection (fromPoint leftSeg))
           < v3_length (v3_sub rightIntersection (fromPoint rightSeg))
      then leftIntersection else rightIntersection)"

text \<open>
  The z-component of the cross product of two consecutive path segments, from
  \<open>a\<close> to \<open>b\<close> and from \<open>b\<close> to \<open>c\<close>: positive when the path bends to the
  left (counter-clockwise, seen from above) at \<open>b\<close>, negative when it bends to
  the right, and zero when the two segments are parallel in the XY plane.
\<close>

definition turn :: "vec3 \<Rightarrow> vec3 \<Rightarrow> vec3 \<Rightarrow> real" where
  "turn a b c = (vx b - vx a) * (vy c - vy b) - (vy b - vy a) * (vx c - vx b)"

text \<open>A path none of whose segments has length zero in the XY plane.\<close>

fun distinctXY :: "vec3 list \<Rightarrow> bool" where
  "distinctXY (a # b # ps) \<longleftrightarrow> (vx a \<noteq> vx b \<or> vy a \<noteq> vy b) \<and> distinctXY (b # ps)"
| "distinctXY ps \<longleftrightarrow> True"

text \<open>The mirror image of a point in the XZ plane.\<close>

fun mirrorY :: "vec3 \<Rightarrow> vec3" where
  "mirrorY (x, y, z) = (x, - y, z)"

section \<open>Evaluation lemmas\<close>

lemma sqrt_100: "sqrt 100 = 10"
  by (rule real_sqrt_unique) simp_all

lemma sqrt_256: "sqrt 256 = 16"
  by (rule real_sqrt_unique) simp_all

lemma sqrt_12769: "sqrt 12769 = 113"
  by (rule real_sqrt_unique) simp_all

lemmas builder_defs =
  ribbon_def ribbonWith_def geometry_def jointsOf_def newLineSegment_def leftSegment_def
  rightSegment_def offsetDir_def rectanglesOf_def stubsOf_def capSupportsOf_def

lemmas eval_defs =
  builder_defs collinear2D_def intersect2D_def det2D_def resolveJoint_def Let_def
  sqrt_100 sqrt_256 sqrt_12769

text \<open>The L-shaped path: east for 10, then north for 10, width 1.\<close>

lemma bend_geometry:
  "geometry removeParallel2D intersect2D [(0, 0, 0), (10, 0, 0), (10, 10, 0)] 1
     = Inr ([((0, 1, 0), (0, - 1, 0), (9, - 1, 0), (9, 1, 0)),
             ((9, 1, 0), (11, 1, 0), (11, 10, 0), (9, 10, 0))],
            [((9, 1, 0), (10, 0, 0), (11, 0, 0), (11, 1, 0)),
             ((10, 0, 0), (9, 1, 0), (9, - 1, 0), (10, - 1, 0))],
            [((11, 0, 0), (10, 0, 0), (10, - 1, 0))])"
  by (simp add: eval_defs)

lemma bend_intersections:
  "intersections intersect2D
     (map (leftSegment 1) (centerSegments (removeParallel2D [(0, 0, 0), (10, 0, 0), (10, 10, 0)])))
     (map (rightSegment 1) (centerSegments (removeParallel2D [(0, 0, 0), (10, 0, 0), (10, 10, 0)])))
     = Inr ([(9, 1, 0)], [(11, - 1, 0)])"
  by (simp add: eval_defs)

lemma bend_ribbon:
  "ribbonWith removeParallel2D intersect2D [(0, 0, 0), (10, 0, 0), (10, 10, 0)]
       \<lparr> options_width = 1, options_closed = None \<rparr>
     = Inr (assemble False
         [((0, 1, 0), (0, - 1, 0), (9, - 1, 0), (9, 1, 0)),
          ((9, 1, 0), (11, 1, 0), (11, 10, 0), (9, 10, 0))]
         [((9, 1, 0), (10, 0, 0), (11, 0, 0), (11, 1, 0)),
          ((10, 0, 0), (9, 1, 0), (9, - 1, 0), (10, - 1, 0))]
         [((11, 0, 0), (10, 0, 0), (10, - 1, 0))])"
  using bend_geometry by (simp add: ribbonWith_def)

lemma bend_angles:
  "startAngle ((11, 0, 0), (10, 0, 0), (10, - 1, 0)) = 270"
  "endAngle ((11, 0, 0), (10, 0, 0), (10, - 1, 0)) = 360"
  by (simp_all add: atan2_def)

lemma bend_numSlices: "numSlices ((11, 0, 0), (10, 0, 0), (10, - 1, 0)) = 9"
  by (simp add: numSlices_def atan2_def sliceAngle_def)

text \<open>
  A path with a short middle segment: east for 16, north for 1, east for 16,
  width 2.
\<close>

lemma zigzag_geometry:
  "geometry removeParallel2D intersect2D [(0, 0, 0), (16, 0, 0), (16, 1, 0), (32, 1, 0)] 2
     = Inr ([((0, 2, 0), (0, - 2, 0), (14, - 2, 0), (14, 2, 0)),
             ((14, 2, 0), (18, 2, 0), (18, 3, 0), (14, 3, 0)),
             ((14, 3, 0), (14, - 1, 0), (32, - 1, 0), (32, 3, 0))],
            [((14, 2, 0), (16, 0, 0), (18, 0, 0), (18, 2, 0)),
             ((16, 0, 0), (14, 2, 0), (14, - 2, 0), (16, - 2, 0)),
             ((14, 3, 0), (16, 1, 0), (16, - 1, 0), (14, - 1, 0)),
             ((16, 1, 0), (14, 3, 0), (18, 3, 0), (18, 1, 0))],
            [((18, 0, 0), (16, 0, 0), (16, - 2, 0)),
             ((16, - 1, 0), (16, 1, 0), (18, 1, 0))])"
  by (simp add: eval_defs)

lemma zigzag_intersections:
  "intersections intersect2D
     (map (leftSegment 2)
        (centerSegments (removeParallel2D [(0, 0, 0), (16, 0, 0), (16, 1, 0), (32, 1, 0)])))
     (map (rightSegment 2)
        (centerSegments (removeParallel2D [(0, 0, 0), (16, 0, 0), (16, 1, 0), (32, 1, 0)])))
     = Inr ([(14, 2, 0), (14, 3, 0)], [(18, - 2, 0), (18, - 1, 0)])"
  by (simp add: eval_defs)

lemma zigzag_from_points:
  "fromPoint (map (leftSegment 2)
      (centerSegments (removeParallel2D [(0, 0, 0), (16, 0, 0), (16, 1, 0), (32, 1, 0)])) ! 1)
     = (14, 0, 0)"
  "fromPoint (map (rightSegment 2)
      (centerSegments (removeParallel2D [(0, 0, 0), (16, 0, 0), (16, 1, 0), (32, 1, 0)])) ! 1)
     = (18, 0, 0)"
  by (simp_all add: eval_defs)

lemma zigzag_inside:
  "insideIntersections removeParallel2D intersect2D
     [(0, 0, 0), (16, 0, 0), (16, 1, 0), (32, 1, 0)] 2 = Inr [(14, 2, 0), (14, 3, 0)]"
  by (simp add: insideIntersections_def eval_defs)

text \<open>
  A path that bends left by less than 10 degrees: north for 16, then along
  (-15, 112), a vector of length 113; width 1.
\<close>

lemma shallow_geometry:
  "geometry removeParallel2D intersect2D [(0, 0, 0), (0, 16, 0), (- 15, 128, 0)] 1
     = Inr ([((- 1, 0, 0), (1, 0, 0), (1, 239 / 15, 0), (- 1, 239 / 15, 0)),
             ((- 1, 239 / 15, 0), (111 / 113, 27457 / 1695, 0),
              (- 1583 / 113, 14479 / 113, 0), (- 1807 / 113, 14449 / 113, 0))],
            [((- 1, 239 / 15, 0), (0, 16, 0), (112 / 113, 1823 / 113, 0),
              (111 / 113, 27457 / 1695, 0)),
             ((0, 16, 0), (- 1, 239 / 15, 0), (1, 239 / 15, 0), (1, 16, 0))],
            [((112 / 113, 1823 / 113, 0), (0, 16, 0), (1, 16, 0))])"
  by (simp add: eval_defs)

lemma arctan_small: "arctan (15 / 112) < pi / 18"
proof -
  have "arctan (15 / 112) < arctan (1 / 7)"
    by (simp add: arctan_less_iff)
  moreover have "0 < arctan (3 / 79)"
    by simp
  ultimately show ?thesis
    using machin_Euler pi_gt_zero by linarith
qed

lemma floor_tenth_zero:
  "0 \<le> (e::real) - s \<Longrightarrow> e - s < 10 \<Longrightarrow> \<lfloor>(e - s) / 10\<rfloor> = 0"
  by (simp add: floor_eq_iff)

lemma shallow_numSlices:
  "numSlices ((112 / 113, 1823 / 113, 0), (0, 16, 0), (1, 16, 0)) = 0"
proof -
  have b: "arctan (15 / 112) * 180 / pi < 10"
    using arctan_small pi_gt_zero by (simp add: field_simps)
  have d: "0 < arctan (15 / 112) * 180 / pi"
    using pi_gt_zero by simp
  have e: "endAngle ((112 / 113, 1823 / 113, 0), (0, 16, 0), (1, 16, 0))
             = arctan (15 / 112) * 180 / pi"
  proof -
    have "\<not> arctan (15 / 112) * 180 / pi < 0" "arctan (15 / 112) * 180 / pi \<noteq> 0"
      using d by linarith+
    then show ?thesis
      by (simp add: atan2_def Let_def)
  qed
  have s: "startAngle ((112 / 113, 1823 / 113, 0), (0, 16, 0), (1, 16, 0)) = 0"
    by (simp add: atan2_def Let_def)
  show ?thesis
    unfolding numSlices_def e s sliceAngle_def
    using b d by (intro floor_tenth_zero) simp_all
qed

section \<open>Sizes of the intermediate arrays\<close>

lemma length_centerSegments: "length (centerSegments ps) = length ps - 1"
  by (induction ps rule: centerSegments.induct) simp_all

lemma length_intersections:
  "intersections ix ls rs = Inr (lis, ris) \<Longrightarrow> length ls = length rs
     \<Longrightarrow> length lis = length ls - 1 \<and> length ris = length ls - 1"
proof (induction ix ls rs arbitrary: lis ris rule: intersections.induct)
  case (1 ix leftA leftB ls rightA rightB rs)
  then show ?case
    by (auto split: sum.splits prod.splits)
qed simp_all

lemma length_resolve:
  "length lis = length cs - 1 \<Longrightarrow> length ris = length cs - 1
     \<Longrightarrow> length (resolve width cs lis ris a b) = length cs - 1"
proof (induction width cs lis ris a b rule: resolve.induct)
  case (1 width centerSegment nextCenterSegment cs li lis ri ris leftStart rightStart)
  then show ?case
    by (simp add: Let_def)
qed simp_all

lemma jointsOf_length:
  assumes "jointsOf rp ix polygon width = Inr js"
  shows "length js = length (rp polygon) - 2" and "2 \<le> length (rp polygon)"
proof -
  let ?cs = "centerSegments (rp polygon)"
  from assms obtain lis ris where
    i: "intersections ix (map (leftSegment width) ?cs) (map (rightSegment width) ?cs)
          = Inr (lis, ris)"
    and ne: "?cs \<noteq> []"
    and js: "js = resolve width ?cs lis ris (fromPoint (hd (map (leftSegment width) ?cs)))
                   (fromPoint (hd (map (rightSegment width) ?cs)))"
    by (auto simp: jointsOf_def Let_def split: sum.splits if_splits)
  from length_intersections [OF i]
  have "length lis = length ?cs - 1" "length ris = length ?cs - 1"
    by simp_all
  then have "length js = length ?cs - 1"
    unfolding js by (rule length_resolve)
  then show "length js = length (rp polygon) - 2"
    by (simp add: length_centerSegments)
  from ne show "2 \<le> length (rp polygon)"
    using length_centerSegments [of "rp polygon"]
    by (cases "rp polygon"; cases "tl (rp polygon)") auto
qed

lemma length_rectanglesOf: "length (rectanglesOf ls rs js) = length js + 1"
  by (simp add: rectanglesOf_def Let_def)

lemma length_stubsOf: "length (stubsOf js) = 2 * length js"
  by (induction js) (simp_all add: stubsOf_def)

lemma length_capSupportsOf: "length (capSupportsOf js) = length js"
  by (simp add: capSupportsOf_def)

lemma geometry_lengths:
  assumes "geometry rp ix polygon width = Inr (rectangles, stubs, capSupports)"
  shows "length rectangles = length (rp polygon) - 1"
    and "length stubs = 2 * (length (rp polygon) - 2)"
    and "length capSupports = length (rp polygon) - 2"
    and "2 \<le> length (rp polygon)"
proof -
  from assms obtain js where js: "jointsOf rp ix polygon width = Inr js"
    and r: "rectangles = rectanglesOf (map (leftSegment width) (centerSegments (rp polygon)))
                 (map (rightSegment width) (centerSegments (rp polygon))) js"
    and s: "stubs = stubsOf js" and c: "capSupports = capSupportsOf js"
    by (auto simp: geometry_def split: sum.splits)
  note l = jointsOf_length [OF js]
  from l show "length rectangles = length (rp polygon) - 1"
    by (simp add: r length_rectanglesOf)
  from l show "length stubs = 2 * (length (rp polygon) - 2)"
    by (simp add: s length_stubsOf)
  from l show "length capSupports = length (rp polygon) - 2"
    by (simp add: c length_capSupportsOf)
  from l show "2 \<le> length (rp polygon)"
    by simp
qed

lemma length_radialPoints: "length (radialPoints cs) = nat (numIntermediatePoints cs) + 2"
  by (cases cs) (simp add: radialPoints.simps Let_def)

lemma length_fanTriangles: "length (fanTriangles cs) = length (radialPoints cs) - 1"
  by (cases cs) (simp add: fanTriangles.simps)

lemma length_rectTriangles: "length (rectTriangles r) = 2"
  by (cases r) simp

lemma length_stubTriangles: "length (stubTriangles r) = 2"
  by (cases r) simp

lemma length_concat_const:
  "(\<And>x. length (f x) = k) \<Longrightarrow> length (concat (map f xs)) = k * length xs"
  by (induction xs) simp_all

lemma length_concat_fans:
  "length (concat (map fanTriangles caps)) = (\<Sum>cs\<leftarrow>caps. length (radialPoints cs) - 1)"
  by (induction caps) (simp_all add: length_fanTriangles)

lemma ribbonWith_Inr:
  assumes "ribbonWith rp ix polygon opts = Inr m"
  obtains rectangles stubs capSupports where
    "geometry rp ix polygon (options_width opts) = Inr (rectangles, stubs, capSupports)"
    "m = assemble (case options_closed opts of None \<Rightarrow> False | Some b \<Rightarrow> b)
           rectangles stubs capSupports"
    "2 \<le> length polygon" "0 < options_width opts"
  using assms
  by (auto simp: ribbonWith_def Let_def split: if_splits sum.splits prod.splits)

section \<open>The joint loop, by index\<close>

lemma resolve_nth:
  "i < length (resolve width cs lis ris a b) \<Longrightarrow>
     resolve width cs lis ris a b ! i =
       resolveJoint width (cs ! i) (cs ! (i + 1)) (lis ! i) (ris ! i)
         ((a # map leftStartNext (resolve width cs lis ris a b)) ! i)
         ((b # map rightStartNext (resolve width cs lis ris a b)) ! i)"
proof (induction width cs lis ris a b arbitrary: i rule: resolve.induct)
  case (1 width centerSegment nextCenterSegment cs li lis ri ris leftStart rightStart)
  show ?case
  proof (cases i)
    case 0
    then show ?thesis
      by (simp add: Let_def)
  next
    case (Suc k)
    with "1.prems" have "k < length (resolve width (nextCenterSegment # cs) lis ris
        (leftStartNext
           (resolveJoint width centerSegment nextCenterSegment li ri leftStart rightStart))
        (rightStartNext
           (resolveJoint width centerSegment nextCenterSegment li ri leftStart rightStart)))"
      by (simp add: Let_def)
    from "1.IH" [OF refl this] Suc show ?thesis
      by (simp add: Let_def)
  qed
qed simp_all

lemma rectanglesOf_nth:
  assumes "i < length js"
  shows "rectanglesOf ls rs js ! i =
           ((fromPoint (hd ls) # map leftStartNext js) ! i,
            (fromPoint (hd rs) # map rightStartNext js) ! i,
            rightEnd (js ! i), leftEnd (js ! i))"
    and "fst (rectanglesOf ls rs js ! (i + 1)) = leftStartNext (js ! i)"
    and "fst (snd (rectanglesOf ls rs js ! (i + 1))) = rightStartNext (js ! i)"
  using assms by (simp_all add: rectanglesOf_def Let_def nth_append del: upt_Suc)

lemma resolveJoint_fields:
  "isLeft (resolveJoint width c n li ri a b)
     = (v3_length (v3_sub li a) < v3_length (v3_sub ri b))"
  "inside (resolveJoint width c n li ri a b)
     = (if v3_length (v3_sub li a) < v3_length (v3_sub ri b) then li else ri)"
  "v3_length (v3_sub li a) < v3_length (v3_sub ri b) \<Longrightarrow>
     leftEnd (resolveJoint width c n li ri a b) = li
     \<and> leftStartNext (resolveJoint width c n li ri a b) = li"
  "\<not> v3_length (v3_sub li a) < v3_length (v3_sub ri b) \<Longrightarrow>
     rightEnd (resolveJoint width c n li ri a b) = ri
     \<and> rightStartNext (resolveJoint width c n li ri a b) = ri"
  by (simp_all add: resolveJoint_def Let_def)

section \<open>Input validation\<close>

text \<open>
  C7. A path of fewer than two points, and a width that is zero or negative,
  make the builder fail with InvalidInput. The failure comes before any
  geometry: it is the result whatever the collinear filter and the intersection
  module would do, and an error result carries no mesh.
\<close>

theorem invalid_input_fails_first:
  "length polygon < 2 \<or> options_width opts \<le> 0
     \<Longrightarrow> ribbonWith rp ix polygon opts = Inl InvalidInput"
  by (auto simp: ribbonWith_def)

theorem invalid_input_fails_first_witness:
  "ribbonWith removeParallel2D intersect2D [(0, 0, 0)]
       \<lparr> options_width = 1, options_closed = None \<rparr> = Inl InvalidInput
   \<and> ribbonWith removeParallel2D intersect2D [(0, 0, 0), (10, 0, 0)]
       \<lparr> options_width = 0, options_closed = None \<rparr> = Inl InvalidInput
   \<and> ribbonWith removeParallel2D intersect2D [(0, 0, 0), (10, 0, 0)]
       \<lparr> options_width = - 1, options_closed = None \<rparr> = Inl InvalidInput"
  using
    invalid_input_fails_first [of "[(0, 0, 0)]"
      "\<lparr> options_width = 1, options_closed = None \<rparr>" removeParallel2D intersect2D]
    invalid_input_fails_first [of "[(0, 0, 0), (10, 0, 0)]"
      "\<lparr> options_width = 0, options_closed = None \<rparr>" removeParallel2D intersect2D]
    invalid_input_fails_first [of "[(0, 0, 0), (10, 0, 0)]"
      "\<lparr> options_width = - 1, options_closed = None \<rparr>" removeParallel2D intersect2D]
  by simp

section \<open>The straight two-point path\<close>

text \<open>
  C2. For the path \<^verbatim>\<open>[(0,0,0),(10,0,0)]\<close> with width 1 and closed false the
  builder makes the one rectangle (0,1,0), (0,-1,0), (10,-1,0), (10,1,0), no
  stub and no cap support, and returns its two triangles and an outline of
  eight points.
\<close>

theorem straight_path_mesh:
  "geometry removeParallel2D intersect2D [(0, 0, 0), (10, 0, 0)] 1
     = Inr ([((0, 1, 0), (0, - 1, 0), (10, - 1, 0), (10, 1, 0))], [], [])
   \<and> ribbon [(0, 0, 0), (10, 0, 0)] \<lparr> options_width = 1, options_closed = Some False \<rparr>
     = Inr \<lparr> triangles =
               [((0, 1, 0), (0, - 1, 0), (10, - 1, 0)),
                ((0, 1, 0), (10, - 1, 0), (10, 1, 0))],
             outline =
               [(0, - 1, 0), (10, - 1, 0), (10, 1, 0), (0, 1, 0),
                (0, 1, 0), (0, - 1, 0), (10, - 1, 0), (10, 1, 0)] \<rparr>"
  by (simp add: eval_defs assemble_def)

section \<open>The L-shaped path\<close>

text \<open>
  C3. For the path \<^verbatim>\<open>[(0,0,0),(10,0,0),(10,10,0)]\<close> with width 1 the builder
  makes two rectangles, two stubs and one cap support. The stubs and the cap
  support lie at the joint (10,0,0), on its right, convex side. The left
  intersection (9,1,0) is the inside corner: it is the left end of the first
  rectangle and the left start of the second.
\<close>

theorem bend_path_geometry:
  "geometry removeParallel2D intersect2D [(0, 0, 0), (10, 0, 0), (10, 10, 0)] 1
     = Inr ([((0, 1, 0), (0, - 1, 0), (9, - 1, 0), (9, 1, 0)),
             ((9, 1, 0), (11, 1, 0), (11, 10, 0), (9, 10, 0))],
            [((9, 1, 0), (10, 0, 0), (11, 0, 0), (11, 1, 0)),
             ((10, 0, 0), (9, 1, 0), (9, - 1, 0), (10, - 1, 0))],
            [((11, 0, 0), (10, 0, 0), (10, - 1, 0))])
   \<and> intersections intersect2D
        (map (leftSegment 1)
           (centerSegments (removeParallel2D [(0, 0, 0), (10, 0, 0), (10, 10, 0)])))
        (map (rightSegment 1)
           (centerSegments (removeParallel2D [(0, 0, 0), (10, 0, 0), (10, 10, 0)])))
     = Inr ([(9, 1, 0)], [(11, - 1, 0)])
   \<and> ribbon [(0, 0, 0), (10, 0, 0), (10, 10, 0)] \<lparr> options_width = 1, options_closed = None \<rparr>
     = Inr (assemble False
         [((0, 1, 0), (0, - 1, 0), (9, - 1, 0), (9, 1, 0)),
          ((9, 1, 0), (11, 1, 0), (11, 10, 0), (9, 10, 0))]
         [((9, 1, 0), (10, 0, 0), (11, 0, 0), (11, 1, 0)),
          ((10, 0, 0), (9, 1, 0), (9, - 1, 0), (10, - 1, 0))]
         [((11, 0, 0), (10, 0, 0), (10, - 1, 0))])"
  using bend_geometry bend_intersections bend_ribbon by (simp add: ribbon_def)

section \<open>Triangle counts\<close>

text \<open>
  C4, as amended. Whenever the builder returns a mesh, its triangle list is the
  triangles of the rectangles, then of the stubs, then of the cap fans. There
  is one rectangle per segment of the filtered path, and there are two stubs and
  one cap support per interior joint. A rectangle gives 2 triangles, a stub the
  2 triangles [0,1,2] and [0,2,3], a cap fan one triangle less than it has radial
  points; and the fan has \<^verbatim>\<open>numIntermediatePoints + 2\<close> radial points
  whenever \<^verbatim>\<open>numSlices\<close> is at least 1.
\<close>

theorem triangle_counts:
  assumes "ribbonWith rp ix polygon opts = Inr m"
  shows "\<exists>rectangles stubs capSupports.
           geometry rp ix polygon (options_width opts) = Inr (rectangles, stubs, capSupports)
         \<and> length rectangles = length (rp polygon) - 1
         \<and> length stubs = 2 * (length (rp polygon) - 2)
         \<and> length capSupports = length (rp polygon) - 2
         \<and> triangles m =
               concat (map rectTriangles rectangles)
               @ concat (map stubTriangles stubs)
               @ concat (map fanTriangles capSupports)
         \<and> length (triangles m) =
               2 * length rectangles + 2 * length stubs
               + (\<Sum>cs\<leftarrow>capSupports. length (radialPoints cs) - 1)
         \<and> (\<forall>r. length (rectTriangles r) = 2)
         \<and> (\<forall>c0 c1 c2 c3. stubTriangles (c0, c1, c2, c3) = [(c0, c1, c2), (c0, c2, c3)])
         \<and> (\<forall>cs. length (fanTriangles cs) = length (radialPoints cs) - 1)
         \<and> (\<forall>cs. 1 \<le> numSlices cs
                \<longrightarrow> int (length (radialPoints cs)) = numIntermediatePoints cs + 2)"
proof -
  from assms obtain rectangles stubs capSupports where
    g: "geometry rp ix polygon (options_width opts) = Inr (rectangles, stubs, capSupports)"
    and m: "m = assemble (case options_closed opts of None \<Rightarrow> False | Some b \<Rightarrow> b)
           rectangles stubs capSupports"
    by (rule ribbonWith_Inr)
  have t: "triangles m =
               concat (map rectTriangles rectangles)
               @ concat (map stubTriangles stubs)
               @ concat (map fanTriangles capSupports)"
    by (simp add: m assemble_def)
  have n: "length (triangles m) =
               2 * length rectangles + 2 * length stubs
               + (\<Sum>cs\<leftarrow>capSupports. length (radialPoints cs) - 1)"
    unfolding t
    by (simp add: length_concat_const [where k = 2, OF length_rectTriangles]
        length_concat_const [where k = 2, OF length_stubTriangles] length_concat_fans)
  have r: "\<forall>cs. 1 \<le> numSlices cs
                \<longrightarrow> int (length (radialPoints cs)) = numIntermediatePoints cs + 2"
    by (simp add: length_radialPoints numIntermediatePoints_def)
  show ?thesis
    using g geometry_lengths [OF g] t n r length_rectTriangles length_fanTriangles
    by (intro exI [of _ rectangles] exI [of _ stubs] exI [of _ capSupports]) simp
qed

text \<open>
  On the L-shaped path the theorem counts 17 triangles: 4 of the two
  rectangles, 4 of the two stubs and 9 of the fan, whose sweep from 270 to 360
  degrees has 9 slices.
\<close>

theorem triangle_counts_witness:
  "ribbonWith removeParallel2D intersect2D [(0, 0, 0), (10, 0, 0), (10, 10, 0)]
       \<lparr> options_width = 1, options_closed = None \<rparr>
     = Inr (assemble False
         [((0, 1, 0), (0, - 1, 0), (9, - 1, 0), (9, 1, 0)),
          ((9, 1, 0), (11, 1, 0), (11, 10, 0), (9, 10, 0))]
         [((9, 1, 0), (10, 0, 0), (11, 0, 0), (11, 1, 0)),
          ((10, 0, 0), (9, 1, 0), (9, - 1, 0), (10, - 1, 0))]
         [((11, 0, 0), (10, 0, 0), (10, - 1, 0))])
   \<and> length (triangles (assemble False
         [((0, 1, 0), (0, - 1, 0), (9, - 1, 0), (9, 1, 0)),
          ((9, 1, 0), (11, 1, 0), (11, 10, 0), (9, 10, 0))]
         [((9, 1, 0), (10, 0, 0), (11, 0, 0), (11, 1, 0)),
          ((10, 0, 0), (9, 1, 0), (9, - 1, 0), (10, - 1, 0))]
         [((11, 0, 0), (10, 0, 0), (10, - 1, 0))])) = 17"
proof -
  let ?cs = "((11, 0, 0), (10, 0, 0), (10, - 1, 0)) :: triangle"
  from triangle_counts [OF bend_ribbon] obtain rectangles stubs capSupports where
    g: "geometry removeParallel2D intersect2D [(0, 0, 0), (10, 0, 0), (10, 10, 0)] 1
          = Inr (rectangles, stubs, capSupports)"
    and n: "length (triangles (assemble False
         [((0, 1, 0), (0, - 1, 0), (9, - 1, 0), (9, 1, 0)),
          ((9, 1, 0), (11, 1, 0), (11, 10, 0), (9, 10, 0))]
         [((9, 1, 0), (10, 0, 0), (11, 0, 0), (11, 1, 0)),
          ((10, 0, 0), (9, 1, 0), (9, - 1, 0), (10, - 1, 0))]
         [?cs])) =
               2 * length rectangles + 2 * length stubs
               + (\<Sum>cs\<leftarrow>capSupports. length (radialPoints cs) - 1)"
    and r: "1 \<le> numSlices ?cs
                \<longrightarrow> int (length (radialPoints ?cs)) = numIntermediatePoints ?cs + 2"
    by auto
  from r have "length (radialPoints ?cs) = 10"
    by (simp add: bend_numSlices numIntermediatePoints_def)
  moreover from g have "length rectangles = 2" "length stubs = 2" "capSupports = [?cs]"
    by (auto simp: bend_geometry)
  ultimately have "length (triangles (assemble False
         [((0, 1, 0), (0, - 1, 0), (9, - 1, 0), (9, 1, 0)),
          ((9, 1, 0), (11, 1, 0), (11, 10, 0), (9, 10, 0))]
         [((9, 1, 0), (10, 0, 0), (11, 0, 0), (11, 1, 0)),
          ((10, 0, 0), (9, 1, 0), (9, - 1, 0), (10, - 1, 0))]
         [?cs])) = 17"
    unfolding n by simp
  with bend_ribbon show ?thesis
    by (rule_tac conjI)
qed

text \<open>
  The claim as it was stated gives every cap fan \<^verbatim>\<open>numIntermediatePoints + 2\<close>
  radial points. On a bend of less than 10 degrees \<^verbatim>\<open>numSlices\<close> is 0 and
  \<^verbatim>\<open>numIntermediatePoints\<close> is -1, while the fan has the 2 radial points it
  starts and ends with.
\<close>

theorem fan_point_count_counterexample:
  "geometry removeParallel2D intersect2D [(0, 0, 0), (0, 16, 0), (- 15, 128, 0)] 1
     = Inr ([((- 1, 0, 0), (1, 0, 0), (1, 239 / 15, 0), (- 1, 239 / 15, 0)),
             ((- 1, 239 / 15, 0), (111 / 113, 27457 / 1695, 0),
              (- 1583 / 113, 14479 / 113, 0), (- 1807 / 113, 14449 / 113, 0))],
            [((- 1, 239 / 15, 0), (0, 16, 0), (112 / 113, 1823 / 113, 0),
              (111 / 113, 27457 / 1695, 0)),
             ((0, 16, 0), (- 1, 239 / 15, 0), (1, 239 / 15, 0), (1, 16, 0))],
            [((112 / 113, 1823 / 113, 0), (0, 16, 0), (1, 16, 0))])
   \<and> numIntermediatePoints ((112 / 113, 1823 / 113, 0), (0, 16, 0), (1, 16, 0)) = - 1
   \<and> length (radialPoints ((112 / 113, 1823 / 113, 0), (0, 16, 0), (1, 16, 0))) = 2
   \<and> int (length (radialPoints ((112 / 113, 1823 / 113, 0), (0, 16, 0), (1, 16, 0))))
       \<noteq> numIntermediatePoints ((112 / 113, 1823 / 113, 0), (0, 16, 0), (1, 16, 0)) + 2"
  using shallow_geometry
  by (simp add: length_radialPoints numIntermediatePoints_def shallow_numSlices)

section \<open>The closed flag\<close>

lemma straight_closed_ribbon:
  "ribbonWith removeParallel2D intersect2D [(0, 0, 0), (10, 0, 0)]
       \<lparr> options_width = 1, options_closed = Some True \<rparr>
     = Inr \<lparr> triangles =
               [((0, 1, 0), (0, - 1, 0), (10, - 1, 0)),
                ((0, 1, 0), (10, - 1, 0), (10, 1, 0))],
             outline = [(0, - 1, 0), (10, - 1, 0), (10, 1, 0), (0, 1, 0)] \<rparr>"
  by (simp add: eval_defs assemble_def)

lemma straight_open_ribbon:
  "ribbonWith removeParallel2D intersect2D [(0, 0, 0), (10, 0, 0)]
       \<lparr> options_width = 1, options_closed = Some False \<rparr>
     = Inr \<lparr> triangles =
               [((0, 1, 0), (0, - 1, 0), (10, - 1, 0)),
                ((0, 1, 0), (10, - 1, 0), (10, 1, 0))],
             outline =
               [(0, - 1, 0), (10, - 1, 0), (10, 1, 0), (0, 1, 0),
                (0, 1, 0), (0, - 1, 0), (10, - 1, 0), (10, 1, 0)] \<rparr>"
  by (simp add: eval_defs assemble_def)

text \<open>
  C5. The closed flag changes the outline only. When the builder returns a mesh
  for a closed path, it returns one for the same path taken as open (closed
  false or absent), with the same triangles, and the open outline is the closed
  one with four more points: the first rectangle's two start corners and the
  last rectangle's two end corners, placed after the rectangles' points.
\<close>

theorem closed_flag_changes_only_outline:
  assumes "ribbonWith rp ix polygon \<lparr> options_width = w, options_closed = Some True \<rparr> = Inr mc"
  shows "\<exists>mo rectangles stubs capSupports a0 a1 a2 a3 b0 b1 b2 b3.
           ribbonWith rp ix polygon \<lparr> options_width = w, options_closed = Some False \<rparr> = Inr mo
         \<and> ribbonWith rp ix polygon \<lparr> options_width = w, options_closed = None \<rparr> = Inr mo
         \<and> geometry rp ix polygon w = Inr (rectangles, stubs, capSupports)
         \<and> rectangles \<noteq> []
         \<and> hd rectangles = (a0, a1, a2, a3)
         \<and> last rectangles = (b0, b1, b2, b3)
         \<and> triangles mo = triangles mc
         \<and> outline mc =
               concat (map rectOutline rectangles)
               @ concat (map stubOutline stubs) @ concat (map fanOutline capSupports)
         \<and> outline mo =
               concat (map rectOutline rectangles) @ [a0, a1, b2, b3]
               @ concat (map stubOutline stubs) @ concat (map fanOutline capSupports)
         \<and> length (outline mo) = length (outline mc) + 4"
proof -
  from assms obtain rectangles stubs capSupports where
    g: "geometry rp ix polygon w = Inr (rectangles, stubs, capSupports)"
    and m: "mc = assemble True rectangles stubs capSupports"
    and v: "2 \<le> length polygon" "0 < w"
    by (rule ribbonWith_Inr) simp_all
  obtain a0 a1 a2 a3 where a: "hd rectangles = (a0, a1, a2, a3)"
    by (rule prod_cases4)
  obtain b0 b1 b2 b3 where b: "last rectangles = (b0, b1, b2, b3)"
    by (rule prod_cases4)
  have ne: "rectangles \<noteq> []"
    using geometry_lengths(1,4) [OF g] by auto
  let ?mo = "assemble False rectangles stubs capSupports"
  have f1: "ribbonWith rp ix polygon \<lparr> options_width = w, options_closed = Some False \<rparr>
              = Inr ?mo"
    using g v by (simp add: ribbonWith_def)
  have f2: "ribbonWith rp ix polygon \<lparr> options_width = w, options_closed = None \<rparr> = Inr ?mo"
    using g v by (simp add: ribbonWith_def)
  have f3: "triangles ?mo = triangles mc"
    by (simp add: m assemble_def)
  have f4: "outline mc =
               concat (map rectOutline rectangles)
               @ concat (map stubOutline stubs) @ concat (map fanOutline capSupports)"
    by (simp add: m assemble_def)
  have f5: "outline ?mo =
               concat (map rectOutline rectangles) @ [a0, a1, b2, b3]
               @ concat (map stubOutline stubs) @ concat (map fanOutline capSupports)"
    by (simp add: assemble_def a b)
  have f6: "length (outline ?mo) = length (outline mc) + 4"
    unfolding f4 f5 by simp
  show ?thesis
    apply (rule exI [of _ ?mo], rule exI [of _ rectangles], rule exI [of _ stubs])
    apply (rule exI [of _ capSupports])
    apply (rule exI [of _ a0], rule exI [of _ a1], rule exI [of _ a2], rule exI [of _ a3])
    apply (rule exI [of _ b0], rule exI [of _ b1], rule exI [of _ b2], rule exI [of _ b3])
    apply (intro conjI)
             apply (rule f1)
            apply (rule f2)
           apply (rule g)
          apply (rule ne)
         apply (rule a)
        apply (rule b)
       apply (rule f3)
      apply (rule f4)
     apply (rule f5)
    apply (rule f6)
    done
qed

text \<open>On the straight two-point path the open outline has 8 points, the closed one 4.\<close>

theorem closed_flag_changes_only_outline_witness:
  "ribbonWith removeParallel2D intersect2D [(0, 0, 0), (10, 0, 0)]
       \<lparr> options_width = 1, options_closed = Some True \<rparr>
     = Inr \<lparr> triangles =
               [((0, 1, 0), (0, - 1, 0), (10, - 1, 0)),
                ((0, 1, 0), (10, - 1, 0), (10, 1, 0))],
             outline = [(0, - 1, 0), (10, - 1, 0), (10, 1, 0), (0, 1, 0)] \<rparr>
   \<and> length (outline \<lparr> triangles =
               [((0, 1, 0), (0, - 1, 0), (10, - 1, 0)),
                ((0, 1, 0), (10, - 1, 0), (10, 1, 0))],
             outline =
               [(0, - 1, 0), (10, - 1, 0), (10, 1, 0), (0, 1, 0),
                (0, 1, 0), (0, - 1, 0), (10, - 1, 0), (10, 1, 0)] \<rparr>)
       = length (outline \<lparr> triangles =
               [((0, 1, 0), (0, - 1, 0), (10, - 1, 0)),
                ((0, 1, 0), (10, - 1, 0), (10, 1, 0))],
             outline = [(0, - 1, 0), (10, - 1, 0), (10, 1, 0), (0, 1, 0)] \<rparr>) + 4"
proof -
  let ?mc = "\<lparr> triangles =
               [((0, 1, 0), (0, - 1, 0), (10, - 1, 0)),
                ((0, 1, 0), (10, - 1, 0), (10, 1, 0))],
             outline = [(0 :: real, - 1 :: real, 0 :: real), (10, - 1, 0), (10, 1, 0), (0, 1, 0)] \<rparr>"
  have "\<exists>mo. ribbonWith removeParallel2D intersect2D [(0, 0, 0), (10, 0, 0)]
                \<lparr> options_width = 1, options_closed = Some False \<rparr> = Inr mo
           \<and> length (outline mo) = length (outline ?mc) + 4"
    using closed_flag_changes_only_outline [OF straight_closed_ribbon]
    by (elim exE conjE) (rule exI, rule conjI, assumption, assumption)
  then have "length (outline \<lparr> triangles =
               [((0, 1, 0), (0, - 1, 0), (10, - 1, 0)),
                ((0, 1, 0), (10, - 1, 0), (10, 1, 0))],
             outline =
               [(0, - 1, 0), (10, - 1, 0), (10, 1, 0), (0, 1, 0),
                (0, 1, 0), (0, - 1, 0), (10, - 1, 0), (10, 1, 0)] \<rparr>)
       = length (outline ?mc) + 4"
    unfolding straight_open_ribbon by (elim exE conjE) (simp only: sum.inject)
  with straight_closed_ribbon show ?thesis
    by (rule conjI)
qed

section \<open>The inside corner of a joint\<close>

text \<open>
  C1, as amended. At every interior joint \<open>i\<close> the builder compares the
  distance from the left intersection to the left start point of rectangle
  \<open>i\<close> with the distance from the right intersection to the right start
  point of rectangle \<open>i\<close>. These start points are the from-points of the first
  offset segments at joint 0, and the points joint \<open>i - 1\<close> resolved afterwards.
  If the left distance is strictly shorter, the left intersection is the left
  end of rectangle \<open>i\<close> and the left start of rectangle \<open>i + 1\<close>; otherwise the
  right intersection is the right end of rectangle \<open>i\<close> and the right start of
  rectangle \<open>i + 1\<close>.
\<close>

theorem inside_corner_rule:
  assumes g: "geometry rp ix polygon width = Inr (rectangles, stubs, capSupports)"
    and x: "intersections ix
              (map (leftSegment width) (centerSegments (rp polygon)))
              (map (rightSegment width) (centerSegments (rp polygon)))
            = Inr (leftIntersections, rightIntersections)"
    and i: "i + 1 < length rectangles"
    and r: "rectangles ! i = (startL, startR, endR, endL)"
    and r': "rectangles ! (i + 1) = (startL', startR', endR', endL')"
  shows "(if v3_length (v3_sub (leftIntersections ! i) startL)
              < v3_length (v3_sub (rightIntersections ! i) startR)
          then endL = leftIntersections ! i \<and> startL' = leftIntersections ! i
          else endR = rightIntersections ! i \<and> startR' = rightIntersections ! i)
       \<and> (i = 0 \<longrightarrow>
            startL = fromPoint (map (leftSegment width) (centerSegments (rp polygon)) ! 0)
          \<and> startR = fromPoint (map (rightSegment width) (centerSegments (rp polygon)) ! 0))"
proof -
  let ?cs = "centerSegments (rp polygon)"
  let ?ls = "map (leftSegment width) ?cs"
  let ?rs = "map (rightSegment width) ?cs"
  let ?a = "fromPoint (hd ?ls)"
  let ?b = "fromPoint (hd ?rs)"
  from g obtain js where j: "jointsOf rp ix polygon width = Inr js"
    and rects: "rectangles = rectanglesOf ?ls ?rs js"
    by (auto simp: geometry_def split: sum.splits)
  from j x have ne: "?cs \<noteq> []"
    and js: "js = resolve width ?cs leftIntersections rightIntersections ?a ?b"
    by (auto simp: jointsOf_def Let_def split: if_splits)
  from i have ij: "i < length js"
    by (simp add: rects rectanglesOf_def Let_def)
  let ?ls_i = "(?a # map leftStartNext js) ! i"
  let ?rs_i = "(?b # map rightStartNext js) ! i"
  have ji: "js ! i = resolveJoint width (?cs ! i) (?cs ! (i + 1))
                       (leftIntersections ! i) (rightIntersections ! i) ?ls_i ?rs_i"
    using resolve_nth [of i width ?cs leftIntersections rightIntersections ?a ?b] ij
    unfolding js [symmetric] by simp
  from rectanglesOf_nth [OF ij, of ?ls ?rs] r r'
  have eqs: "startL = ?ls_i" "startR = ?rs_i"
    "endR = rightEnd (js ! i)" "endL = leftEnd (js ! i)"
    "startL' = leftStartNext (js ! i)" "startR' = rightStartNext (js ! i)"
    by (simp_all add: rects)
  have first: "i = 0 \<longrightarrow> startL = fromPoint (?ls ! 0) \<and> startR = fromPoint (?rs ! 0)"
    using ne by (auto simp: eqs hd_conv_nth)
  show ?thesis
    using first resolveJoint_fields(3,4) [of "leftIntersections ! i" ?ls_i "rightIntersections ! i" ?rs_i
        width "?cs ! i" "?cs ! (i + 1)"]
    unfolding eqs ji by auto
qed


text \<open>Joint 1 of the path with the short middle segment: 1 against 3, the left side.\<close>

theorem inside_corner_rule_witness:
  "geometry removeParallel2D intersect2D [(0, 0, 0), (16, 0, 0), (16, 1, 0), (32, 1, 0)] 2
     = Inr ([((0, 2, 0), (0, - 2, 0), (14, - 2, 0), (14, 2, 0)),
             ((14, 2, 0), (18, 2, 0), (18, 3, 0), (14, 3, 0)),
             ((14, 3, 0), (14, - 1, 0), (32, - 1, 0), (32, 3, 0))],
            [((14, 2, 0), (16, 0, 0), (18, 0, 0), (18, 2, 0)),
             ((16, 0, 0), (14, 2, 0), (14, - 2, 0), (16, - 2, 0)),
             ((14, 3, 0), (16, 1, 0), (16, - 1, 0), (14, - 1, 0)),
             ((16, 1, 0), (14, 3, 0), (18, 3, 0), (18, 1, 0))],
            [((18, 0, 0), (16, 0, 0), (16, - 2, 0)),
             ((16, - 1, 0), (16, 1, 0), (18, 1, 0))])
   \<and> v3_length (v3_sub ([(14, 2, 0), (14, 3, 0)] ! 1) (14, 2, 0))
       < v3_length (v3_sub ([(18, - 2, 0), (18, - 1, 0)] ! 1) (18, 2, 0))
   \<and> ((14, 3, 0) :: vec3) = [(14, 2, 0), (14, 3, 0)] ! 1"
  using inside_corner_rule [OF zigzag_geometry zigzag_intersections, of 1
      "(14, 2, 0)" "(18, 2, 0)" "(18, 3, 0)" "(14, 3, 0)"
      "(14, 3, 0)" "(14, - 1, 0)" "(32, - 1, 0)" "(32, 3, 0)"]
    zigzag_geometry
  by simp

text \<open>
  The claim as it was stated measures the two distances from the from-points
  of offset segments \<open>i\<close>. At joint 1 of the same path these are (14,0,0) and
  (18,0,0), and the right intersection (18,-1,0) is strictly the closer one, at
  1 against 3: it is the inside corner in the spec's words. The builder makes
  the left intersection (14,3,0) the inside corner, the vertex the second and
  third rectangles share, and the right intersection is a vertex of neither.
\<close>

theorem inside_corner_from_point_counterexample:
  "intersections intersect2D
     (map (leftSegment 2)
        (centerSegments (removeParallel2D [(0, 0, 0), (16, 0, 0), (16, 1, 0), (32, 1, 0)])))
     (map (rightSegment 2)
        (centerSegments (removeParallel2D [(0, 0, 0), (16, 0, 0), (16, 1, 0), (32, 1, 0)])))
     = Inr ([(14, 2, 0), (14, 3, 0)], [(18, - 2, 0), (18, - 1, 0)])
   \<and> fromPoint (map (leftSegment 2)
        (centerSegments (removeParallel2D [(0, 0, 0), (16, 0, 0), (16, 1, 0), (32, 1, 0)])) ! 1)
     = (14, 0, 0)
   \<and> fromPoint (map (rightSegment 2)
        (centerSegments (removeParallel2D [(0, 0, 0), (16, 0, 0), (16, 1, 0), (32, 1, 0)])) ! 1)
     = (18, 0, 0)
   \<and> v3_length (v3_sub (18, - 1, 0) (18, 0, 0)) < v3_length (v3_sub (14, 3, 0) (14, 0, 0))
   \<and> specInside
        (map (leftSegment 2)
          (centerSegments (removeParallel2D [(0, 0, 0), (16, 0, 0), (16, 1, 0), (32, 1, 0)])) ! 1)
        (map (rightSegment 2)
          (centerSegments (removeParallel2D [(0, 0, 0), (16, 0, 0), (16, 1, 0), (32, 1, 0)])) ! 1)
        (14, 3, 0) (18, - 1, 0)
     = (18, - 1, 0)
   \<and> insideIntersections removeParallel2D intersect2D
        [(0, 0, 0), (16, 0, 0), (16, 1, 0), (32, 1, 0)] 2
     = Inr [(14, 2, 0), (14, 3, 0)]
   \<and> geometry removeParallel2D intersect2D [(0, 0, 0), (16, 0, 0), (16, 1, 0), (32, 1, 0)] 2
     = Inr ([((0, 2, 0), (0, - 2, 0), (14, - 2, 0), (14, 2, 0)),
             ((14, 2, 0), (18, 2, 0), (18, 3, 0), (14, 3, 0)),
             ((14, 3, 0), (14, - 1, 0), (32, - 1, 0), (32, 3, 0))],
            [((14, 2, 0), (16, 0, 0), (18, 0, 0), (18, 2, 0)),
             ((16, 0, 0), (14, 2, 0), (14, - 2, 0), (16, - 2, 0)),
             ((14, 3, 0), (16, 1, 0), (16, - 1, 0), (14, - 1, 0)),
             ((16, 1, 0), (14, 3, 0), (18, 3, 0), (18, 1, 0))],
            [((18, 0, 0), (16, 0, 0), (16, - 2, 0)),
             ((16, - 1, 0), (16, 1, 0), (18, 1, 0))])"
  using zigzag_intersections zigzag_from_points zigzag_geometry zigzag_inside
  by (simp add: specInside_def)

section \<open>The angles of a cap fan\<close>

lemma atan2_bounds: "- pi < atan2 y x" "atan2 y x \<le> pi"
proof -
  have b: "- (pi / 2) < arctan (y / x)" "arctan (y / x) < pi / 2"
    by (rule arctan_lbound arctan_ubound)+
  have n: "x < 0 \<Longrightarrow> 0 \<le> y \<Longrightarrow> arctan (y / x) \<le> 0"
    by (simp add: divide_nonneg_neg)
  have p: "x < 0 \<Longrightarrow> y < 0 \<Longrightarrow> 0 < arctan (y / x)"
    by (simp add: divide_neg_neg)
  show "- pi < atan2 y x"
    using b n p pi_gt_zero unfolding atan2_def by (auto; linarith)
  show "atan2 y x \<le> pi"
    using b n p pi_gt_zero unfolding atan2_def by (auto; linarith)
qed

lemma degrees_bounds:
  "- 180 < atan2 y x / pi * 180" "atan2 y x / pi * 180 \<le> 180"
  using atan2_bounds [of y x] pi_gt_zero by (simp_all add: field_simps)

lemma startAngle_range: "0 \<le> startAngle cs" "startAngle cs < 360"
proof -
  obtain cs0 cs1 cs2 where cs: "cs = (cs0, cs1, cs2)"
    by (rule prod_cases3)
  define a where "a = atan2 (vy cs2 - vy cs1) (vx cs2 - vx cs1) / pi * 180"
  have "- 180 < a" "a \<le> 180"
    unfolding a_def by (rule degrees_bounds)+
  moreover have "startAngle cs = (if a < 0 then a + 360 else a)"
    by (simp add: cs a_def Let_def)
  ultimately show "0 \<le> startAngle cs" "startAngle cs < 360"
    by (auto split: if_splits)
qed

lemma endAngle_range: "0 < endAngle cs" "endAngle cs \<le> 360"
proof -
  obtain cs0 cs1 cs2 where cs: "cs = (cs0, cs1, cs2)"
    by (rule prod_cases3)
  define a where "a = atan2 (vy cs0 - vy cs1) (vx cs0 - vx cs1) / pi * 180"
  have "- 180 < a" "a \<le> 180"
    unfolding a_def by (rule degrees_bounds)+
  moreover have "endAngle cs = (if (if a < 0 then a + 360 else a) = 0 then 360
                                  else if a < 0 then a + 360 else a)"
    by (simp add: cs a_def Let_def)
  ultimately show "0 < endAngle cs" "endAngle cs \<le> 360"
    by (auto split: if_splits)
qed

lemma numSlices_le: "numSlices cs \<le> 36"
proof -
  have "(endAngle cs - startAngle cs) / 10 \<le> 36"
    using startAngle_range(1) [of cs] endAngle_range(2) [of cs] by simp
  then have "\<lfloor>(endAngle cs - startAngle cs) / 10\<rfloor> \<le> \<lfloor>36 :: real\<rfloor>"
    by (rule floor_mono)
  then show ?thesis
    by (simp add: numSlices_def sliceAngle_def)
qed

lemma fan_size_le: "length (fanTriangles cs) \<le> 36"
  using numSlices_le [of cs]
  by (simp add: length_fanTriangles length_radialPoints numIntermediatePoints_def)

text \<open>
  C6. For a cap support \<open>(cs0, cs1, cs2)\<close> with pivot \<open>cs1\<close>, the start angle
  is the atan2 angle of \<open>cs2 - cs1\<close> in degrees and the end angle that of
  \<open>cs0 - cs1\<close>, each raised by 360 when negative, so that the start angle lies
  in [0,360); an end angle of 0 becomes 360, so that the end angle lies in
  (0,360]. The slice count is the floor of a tenth of the sweep, it never exceeds
  36, no fan has more than 36 triangles, and the slice count times the rotation
  angle is the sweep in radians.
\<close>

theorem cap_fan_angles:
  "startAngle (cs0, cs1, cs2) =
     (if atan2 (vy cs2 - vy cs1) (vx cs2 - vx cs1) / pi * 180 < 0
      then atan2 (vy cs2 - vy cs1) (vx cs2 - vx cs1) / pi * 180 + 360
      else atan2 (vy cs2 - vy cs1) (vx cs2 - vx cs1) / pi * 180)
   \<and> endAngle (cs0, cs1, cs2) =
     (if atan2 (vy cs0 - vy cs1) (vx cs0 - vx cs1) / pi * 180 = 0 then 360
      else if atan2 (vy cs0 - vy cs1) (vx cs0 - vx cs1) / pi * 180 < 0
      then atan2 (vy cs0 - vy cs1) (vx cs0 - vx cs1) / pi * 180 + 360
      else atan2 (vy cs0 - vy cs1) (vx cs0 - vx cs1) / pi * 180)
   \<and> 0 \<le> startAngle (cs0, cs1, cs2) \<and> startAngle (cs0, cs1, cs2) < 360
   \<and> 0 < endAngle (cs0, cs1, cs2) \<and> endAngle (cs0, cs1, cs2) \<le> 360
   \<and> numSlices (cs0, cs1, cs2)
       = \<lfloor>(endAngle (cs0, cs1, cs2) - startAngle (cs0, cs1, cs2)) / 10\<rfloor>
   \<and> numSlices (cs0, cs1, cs2) \<le> 36
   \<and> length (fanTriangles (cs0, cs1, cs2)) \<le> 36
   \<and> (numSlices (cs0, cs1, cs2) \<noteq> 0 \<longrightarrow>
        rotationAngle (cs0, cs1, cs2) * of_int (numSlices (cs0, cs1, cs2))
          = (endAngle (cs0, cs1, cs2) - startAngle (cs0, cs1, cs2)) / 180 * pi)"
proof -
  let ?cs = "(cs0, cs1, cs2)"
  have s: "startAngle ?cs =
     (if atan2 (vy cs2 - vy cs1) (vx cs2 - vx cs1) / pi * 180 < 0
      then atan2 (vy cs2 - vy cs1) (vx cs2 - vx cs1) / pi * 180 + 360
      else atan2 (vy cs2 - vy cs1) (vx cs2 - vx cs1) / pi * 180)"
    by (simp add: Let_def)
  have e: "endAngle ?cs =
     (if atan2 (vy cs0 - vy cs1) (vx cs0 - vx cs1) / pi * 180 = 0 then 360
      else if atan2 (vy cs0 - vy cs1) (vx cs0 - vx cs1) / pi * 180 < 0
      then atan2 (vy cs0 - vy cs1) (vx cs0 - vx cs1) / pi * 180 + 360
      else atan2 (vy cs0 - vy cs1) (vx cs0 - vx cs1) / pi * 180)"
  proof -
    define a where "a = atan2 (vy cs0 - vy cs1) (vx cs0 - vx cs1) / pi * 180"
    have "- 180 < a"
      unfolding a_def by (rule degrees_bounds)
    moreover have "endAngle ?cs = (if (if a < 0 then a + 360 else a) = 0 then 360
                                   else if a < 0 then a + 360 else a)"
      by (simp add: a_def Let_def)
    ultimately have "endAngle ?cs = (if a = 0 then 360 else if a < 0 then a + 360 else a)"
      by (auto split: if_splits)
    then show ?thesis
      unfolding a_def .
  qed
  have n: "numSlices ?cs = \<lfloor>(endAngle ?cs - startAngle ?cs) / 10\<rfloor>"
    by (simp only: numSlices_def sliceAngle_def)
  have r: "numSlices ?cs \<noteq> 0 \<longrightarrow>
        rotationAngle ?cs * of_int (numSlices ?cs) = (endAngle ?cs - startAngle ?cs) / 180 * pi"
    by (simp add: rotationAngle_def)
  show ?thesis
    apply (intro conjI)
            apply (rule s)
           apply (rule e)
          apply (rule startAngle_range)
         apply (rule startAngle_range)
        apply (rule endAngle_range)
       apply (rule endAngle_range)
      apply (rule n)
     apply (rule numSlices_le)
    apply (rule fan_size_le)
    apply (rule r)
    done
qed

text \<open>
  The cap support of the L-shaped path sweeps from 270 to 360 degrees in 9
  slices of 10 degrees.
\<close>

theorem cap_fan_angles_witness:
  "numSlices ((11, 0, 0), (10, 0, 0), (10, - 1, 0)) = 9
   \<and> rotationAngle ((11, 0, 0), (10, 0, 0), (10, - 1, 0)) * 9 = pi / 2"
  using cap_fan_angles [of "(11, 0, 0)" "(10, 0, 0)" "(10, - 1, 0)"]
  by (simp only: bend_numSlices bend_angles) simp

section \<open>Flat paths give flat meshes\<close>

lemma vz_add [simp]: "vz (v3_add a b) = vz a + vz b"
  by (cases a; cases b) simp

lemma vz_multiply [simp]: "vz (v3_multiply a s) = vz a * s"
  by (cases a) simp

lemma vz_neg [simp]: "vz (v3_neg a) = - vz a"
  by (cases a) simp

lemma vz_norm [simp]: "vz (v3_norm a) = vz a / v3_length a"
  by (cases a) simp

lemma vz_cross_up [simp]: "vz (v3_cross (0, 0, 1) d) = 0"
  by (cases d) simp

lemma vz_setZ0 [simp]: "vz (setZ0 p) = 0"
  by (cases p) simp

lemma centerSegments_flat:
  "\<forall>p\<in>set ps. vz p = 0 \<Longrightarrow>
     \<forall>c\<in>set (centerSegments ps). vz (fromPoint c) = 0 \<and> vz (toPoint c) = 0"
  by (induction ps rule: centerSegments.induct) (simp_all add: newLineSegment_def)

lemma offsetSegment_flat:
  assumes "vz (fromPoint c) = 0" "vz (toPoint c) = 0"
  shows "vz (fromPoint (leftSegment width c)) = 0" "vz (toPoint (leftSegment width c)) = 0"
    "vz (fromPoint (rightSegment width c)) = 0" "vz (toPoint (rightSegment width c)) = 0"
  using assms by (simp_all add: leftSegment_def rightSegment_def newLineSegment_def offsetDir_def)

lemma intersections_flat:
  "intersections ix ls rs = Inr (lis, ris) \<Longrightarrow>
     (\<forall>p\<in>set lis. vz p = 0) \<and> (\<forall>p\<in>set ris. vz p = 0)"
proof (induction ix ls rs arbitrary: lis ris rule: intersections.induct)
  case (1 ix leftA leftB ls rightA rightB rs)
  from "1.prems" obtain left3D right3D lis' ris' where
    l: "ix (fromPoint leftA, toPoint leftA) (fromPoint leftB, toPoint leftB) = Inr left3D"
    and r: "ix (fromPoint rightA, toPoint rightA) (fromPoint rightB, toPoint rightB) = Inr right3D"
    and rest: "intersections ix (leftB # ls) (rightB # rs) = Inr (lis', ris')"
    and eq: "lis = setZ0 left3D # lis'" "ris = setZ0 right3D # ris'"
    by (auto split: sum.splits prod.splits)
  from "1.IH" [OF l r rest] show ?case
    by (simp add: eq)
qed simp_all

lemma resolveJoint_flat:
  assumes "vz li = 0" "vz ri = 0" "vz (toPoint c) = 0"
  shows "flatJoint (resolveJoint width c n li ri a b)"
  using assms by (simp add: flatJoint_def flatQuad_def flatTriangle_def resolveJoint_def Let_def)

lemma resolve_flat:
  "\<forall>p\<in>set lis. vz p = 0 \<Longrightarrow> \<forall>p\<in>set ris. vz p = 0 \<Longrightarrow> \<forall>c\<in>set cs. vz (toPoint c) = 0
     \<Longrightarrow> \<forall>j\<in>set (resolve width cs lis ris a b). flatJoint j"
proof (induction width cs lis ris a b rule: resolve.induct)
  case (1 width centerSegment nextCenterSegment cs li lis ri ris leftStart rightStart)
  then show ?case
    by (simp add: Let_def resolveJoint_flat)
qed simp_all

lemma rectanglesOf_flat:
  assumes js: "\<forall>j\<in>set js. flatJoint j"
    and ls: "vz (fromPoint (hd ls)) = 0" "vz (toPoint (last ls)) = 0"
    and rs: "vz (fromPoint (hd rs)) = 0" "vz (toPoint (last rs)) = 0"
  shows "\<forall>r\<in>set (rectanglesOf ls rs js). flatQuad r"
proof -
  have a: "\<forall>p\<in>set (fromPoint (hd ls) # map leftStartNext js). vz p = 0"
    using js ls by (auto simp: flatJoint_def)
  have b: "\<forall>p\<in>set (fromPoint (hd rs) # map rightStartNext js). vz p = 0"
    using js rs by (auto simp: flatJoint_def)
  have c: "\<forall>p\<in>set (map rightEnd js @ [toPoint (last rs)]). vz p = 0"
    using js rs by (auto simp: flatJoint_def)
  have d: "\<forall>p\<in>set (map leftEnd js @ [toPoint (last ls)]). vz p = 0"
    using js ls by (auto simp: flatJoint_def)
  have n: "\<And>xs i. \<forall>p\<in>set xs. vz p = 0 \<Longrightarrow> i < length xs \<Longrightarrow> vz (xs ! i) = (0 :: real)"
    by simp
  show ?thesis
    unfolding rectanglesOf_def Let_def flatQuad_def
    using n [OF a] n [OF b] n [OF c] n [OF d] by (auto simp del: upt_Suc)
qed

lemma radialPoints_flat:
  assumes "flatTriangle cs"
  shows "\<forall>p\<in>set (radialPoints cs). vz p = 0"
proof -
  obtain cs0 cs1 cs2 where cs: "cs = (cs0, cs1, cs2)"
    by (rule prod_cases3)
  from assms show ?thesis
    unfolding cs by (auto simp: radialPoints.simps flatTriangle_def Let_def)
qed

lemma fanTriangles_flat:
  assumes "flatTriangle cs"
  shows "\<forall>t\<in>set (fanTriangles cs). flatTriangle t"
proof -
  obtain cs0 cs1 cs2 where cs: "cs = (cs0, cs1, cs2)"
    by (rule prod_cases3)
  have "\<And>i. i < length (radialPoints cs) \<Longrightarrow> vz (radialPoints cs ! i) = 0"
    using radialPoints_flat [OF assms] by simp
  with assms show ?thesis
    unfolding cs by (auto simp: fanTriangles.simps flatTriangle_def)
qed

lemma fanOutline_flat:
  assumes "flatTriangle cs"
  shows "\<forall>p\<in>set (fanOutline cs). vz p = 0"
proof -
  obtain cs0 cs1 cs2 where cs: "cs = (cs0, cs1, cs2)"
    by (rule prod_cases3)
  have "\<And>i. i < length (radialPoints cs) \<Longrightarrow> vz (radialPoints cs ! i) = 0"
    using radialPoints_flat [OF assms] by simp
  then show ?thesis
    unfolding cs by (auto simp: fanOutline.simps)
qed

lemma rectTriangles_flat: "flatQuad r \<Longrightarrow> \<forall>t\<in>set (rectTriangles r). flatTriangle t"
  by (cases r rule: prod_cases4) (simp add: flatQuad_def flatTriangle_def)

lemma stubTriangles_flat: "flatQuad r \<Longrightarrow> \<forall>t\<in>set (stubTriangles r). flatTriangle t"
  by (cases r rule: prod_cases4) (simp add: flatQuad_def flatTriangle_def)

lemma rectOutline_flat: "flatQuad r \<Longrightarrow> \<forall>p\<in>set (rectOutline r). vz p = 0"
  by (cases r rule: prod_cases4) (simp add: flatQuad_def)

lemma stubOutline_flat: "flatQuad r \<Longrightarrow> \<forall>p\<in>set (stubOutline r). vz p = 0"
  by (cases r rule: prod_cases4) (simp add: flatQuad_def)

lemma openEdges_flat:
  assumes "rectangles \<noteq> []" "\<forall>r\<in>set rectangles. flatQuad r"
  shows "\<forall>p\<in>set (openEdges rectangles). vz p = 0"
proof -
  from assms have "flatQuad (hd rectangles)" "flatQuad (last rectangles)"
    by simp_all
  then show ?thesis
    by (cases "hd rectangles" rule: prod_cases4; cases "last rectangles" rule: prod_cases4)
      (simp add: flatQuad_def)
qed

lemma assemble_flat:
  assumes "rectangles \<noteq> []" "\<forall>r\<in>set rectangles. flatQuad r"
    "\<forall>r\<in>set stubs. flatQuad r" "\<forall>cs\<in>set capSupports. flatTriangle cs"
  shows "\<forall>t\<in>set (triangles (assemble closedFlag rectangles stubs capSupports)). flatTriangle t"
    and "\<forall>p\<in>set (outline (assemble closedFlag rectangles stubs capSupports)). vz p = 0"
proof -
  show "\<forall>t\<in>set (triangles (assemble closedFlag rectangles stubs capSupports)). flatTriangle t"
    using assms(2-4) rectTriangles_flat stubTriangles_flat fanTriangles_flat
    by (fastforce simp: assemble_def)
  show "\<forall>p\<in>set (outline (assemble closedFlag rectangles stubs capSupports)). vz p = 0"
    using assms(2-4) openEdges_flat [OF assms(1,2)] rectOutline_flat stubOutline_flat fanOutline_flat
    by (fastforce simp: assemble_def simp del: openEdges.simps)
qed


lemma geometry_flat:
  assumes g: "geometry rp ix polygon width = Inr (rectangles, stubs, capSupports)"
    and flat: "\<forall>p\<in>set (rp polygon). vz p = 0"
  shows "rectangles \<noteq> []" "\<forall>r\<in>set rectangles. flatQuad r"
    "\<forall>r\<in>set stubs. flatQuad r" "\<forall>cs\<in>set capSupports. flatTriangle cs"
proof -
  let ?cs = "centerSegments (rp polygon)"
  let ?ls = "map (leftSegment width) ?cs"
  let ?rs = "map (rightSegment width) ?cs"
  from g obtain js where j: "jointsOf rp ix polygon width = Inr js"
    and rects: "rectangles = rectanglesOf ?ls ?rs js"
    and stubs: "stubs = stubsOf js" and caps: "capSupports = capSupportsOf js"
    by (auto simp: geometry_def split: sum.splits)
  from j obtain lis ris where x: "intersections ix ?ls ?rs = Inr (lis, ris)"
    and ne: "?cs \<noteq> []"
    and js: "js = resolve width ?cs lis ris (fromPoint (hd ?ls)) (fromPoint (hd ?rs))"
    by (auto simp: jointsOf_def Let_def split: sum.splits if_splits)
  note c = centerSegments_flat [OF flat]
  from c have ct: "\<forall>c\<in>set ?cs. vz (toPoint c) = 0"
    by simp
  have fj: "\<forall>j\<in>set js. flatJoint j"
    unfolding js using intersections_flat [OF x] ct by (intro resolve_flat) simp_all
  from ne c have h: "vz (fromPoint (hd ?cs)) = 0" "vz (toPoint (hd ?cs)) = 0"
    and l: "vz (fromPoint (last ?cs)) = 0" "vz (toPoint (last ?cs)) = 0"
    by simp_all
  have ends: "vz (fromPoint (hd ?ls)) = 0" "vz (toPoint (last ?ls)) = 0"
    "vz (fromPoint (hd ?rs)) = 0" "vz (toPoint (last ?rs)) = 0"
    using ne offsetSegment_flat [OF h] offsetSegment_flat [OF l]
    by (simp_all add: hd_map last_map)
  show "rectangles \<noteq> []"
    using geometry_lengths(1,4) [OF g] by auto
  show "\<forall>r\<in>set rectangles. flatQuad r"
    unfolding rects using fj ends by (rule rectanglesOf_flat)
  show "\<forall>r\<in>set stubs. flatQuad r"
    using fj by (auto simp: stubs stubsOf_def flatJoint_def)
  show "\<forall>cs\<in>set capSupports. flatTriangle cs"
    using fj by (auto simp: caps capSupportsOf_def flatJoint_def)
qed

text \<open>
  C10. When every point of the input path has z = 0, every vertex of every
  triangle and every outline point of the returned mesh has z = 0. The collinear
  filter is any function that only removes points. The segments of the filtered
  path are taken to have non-zero length, as the data model of the spec
  requires: on a zero-length segment the source's normalisation divides zero by
  zero, which the reals of this model do not follow.
\<close>

theorem flat_path_flat_mesh:
  assumes "ribbonWith rp ix polygon opts = Inr m"
    and "\<forall>p\<in>set polygon. vz p = 0"
    and "set (rp polygon) \<subseteq> set polygon"
    and "\<forall>c\<in>set (centerSegments (rp polygon)). segLength c \<noteq> 0"
  shows "(\<forall>t\<in>set (triangles m). flatTriangle t) \<and> (\<forall>p\<in>set (outline m). vz p = 0)"
proof -
  from assms(1) obtain rectangles stubs capSupports where
    g: "geometry rp ix polygon (options_width opts) = Inr (rectangles, stubs, capSupports)"
    and m: "m = assemble (case options_closed opts of None \<Rightarrow> False | Some b \<Rightarrow> b)
           rectangles stubs capSupports"
    by (rule ribbonWith_Inr)
  from assms(2,3) have "\<forall>p\<in>set (rp polygon). vz p = 0"
    by blast
  note f = geometry_flat [OF g this]
  show ?thesis
    unfolding m using assemble_flat [OF f] by (rule conjI)
qed

text \<open>The mesh of the L-shaped path.\<close>

theorem flat_path_flat_mesh_witness:
  "list_all flatTriangle (triangles (assemble False
         [((0, 1, 0), (0, - 1, 0), (9, - 1, 0), (9, 1, 0)),
          ((9, 1, 0), (11, 1, 0), (11, 10, 0), (9, 10, 0))]
         [((9, 1, 0), (10, 0, 0), (11, 0, 0), (11, 1, 0)),
          ((10, 0, 0), (9, 1, 0), (9, - 1, 0), (10, - 1, 0))]
         [((11, 0, 0), (10, 0, 0), (10, - 1, 0))]))
   \<and> list_all (\<lambda>p. vz p = 0) (outline (assemble False
         [((0, 1, 0), (0, - 1, 0), (9, - 1, 0), (9, 1, 0)),
          ((9, 1, 0), (11, 1, 0), (11, 10, 0), (9, 10, 0))]
         [((9, 1, 0), (10, 0, 0), (11, 0, 0), (11, 1, 0)),
          ((10, 0, 0), (9, 1, 0), (9, - 1, 0), (10, - 1, 0))]
         [((11, 0, 0), (10, 0, 0), (10, - 1, 0))]))"
proof -
  have p: "\<forall>p\<in>set [(0, 0, 0), (10, 0, 0), (10, 10, 0 :: real)]. vz p = (0 :: real)"
    by simp
  have s: "set (removeParallel2D [(0, 0, 0), (10, 0, 0), (10, 10, 0)])
             \<subseteq> set [(0, 0, 0), (10, 0, 0), (10, 10, 0)]"
    by (simp add: collinear2D_def)
  have n: "\<forall>c\<in>set (centerSegments (removeParallel2D [(0, 0, 0), (10, 0, 0), (10, 10, 0)])).
             segLength c \<noteq> 0"
    by (simp add: collinear2D_def newLineSegment_def)
  from flat_path_flat_mesh [OF bend_ribbon p s n] show ?thesis
    unfolding list_all_iff .
qed

section \<open>Parallel offset lines\<close>

lemma vx_add [simp]: "vx (v3_add a b) = vx a + vx b"
  by (cases a; cases b) simp

lemma vy_add [simp]: "vy (v3_add a b) = vy a + vy b"
  by (cases a; cases b) simp

lemma centerSegments_nth:
  "j + 1 < length ps \<Longrightarrow> centerSegments ps ! j = newLineSegment (ps ! j) (ps ! (j + 1))"
proof (induction ps arbitrary: j rule: centerSegments.induct)
  case (1 a b ps)
  then show ?case
    by (cases j) simp_all
qed simp_all

lemma det2D_offset:
  "det2D (fromPoint (leftSegment width (newLineSegment a b)),
          toPoint (leftSegment width (newLineSegment a b)))
         (fromPoint (leftSegment width (newLineSegment b c)),
          toPoint (leftSegment width (newLineSegment b c))) = turn a b c"
  "det2D (fromPoint (rightSegment width (newLineSegment a b)),
          toPoint (rightSegment width (newLineSegment a b)))
         (fromPoint (rightSegment width (newLineSegment b c)),
          toPoint (rightSegment width (newLineSegment b c))) = turn a b c"
  by (simp_all add: det2D_def turn_def leftSegment_def rightSegment_def newLineSegment_def
      algebra_simps)

lemma intersect2D_error: "intersect2D a b = Inl e \<Longrightarrow> e = DegenerateGeometry"
  by (auto simp: intersect2D_def Let_def split: if_splits)

lemma intersect2D_parallel: "det2D a b = 0 \<Longrightarrow> intersect2D a b = Inl DegenerateGeometry"
  by (simp add: intersect2D_def)

lemma intersections_error:
  "intersections intersect2D ls rs = Inl e \<Longrightarrow> e = DegenerateGeometry"
proof (induction intersect2D ls rs arbitrary: e rule: intersections.induct)
  case (1 leftA leftB ls rightA rightB rs)
  then show ?case
    by (auto split: sum.splits prod.splits dest: intersect2D_error)
qed simp_all

lemma intersections_parallel:
  "j + 1 < length ls \<Longrightarrow> length rs = length ls
     \<Longrightarrow> det2D (fromPoint (ls ! j), toPoint (ls ! j))
               (fromPoint (ls ! (j + 1)), toPoint (ls ! (j + 1))) = 0
     \<Longrightarrow> intersections intersect2D ls rs = Inl DegenerateGeometry"
proof (induction intersect2D ls rs arbitrary: j rule: intersections.induct)
  case (1 leftA leftB ls rightA rightB rs)
  show ?case
  proof (cases j)
    case 0
    with "1.prems" show ?thesis
      by (simp add: intersect2D_parallel)
  next
    case (Suc k)
    let ?l = "intersect2D (fromPoint leftA, toPoint leftA) (fromPoint leftB, toPoint leftB)"
    let ?r = "intersect2D (fromPoint rightA, toPoint rightA) (fromPoint rightB, toPoint rightB)"
    show ?thesis
    proof (cases ?l)
      case (Inl e)
      with intersect2D_error [OF Inl] show ?thesis
        by simp
    next
      case l: (Inr left3D)
      show ?thesis
      proof (cases ?r)
        case (Inl e)
        with l intersect2D_error [OF Inl] show ?thesis
          by simp
      next
        case r: (Inr right3D)
        from Suc "1.prems"
        have "intersections intersect2D (leftB # ls) (rightB # rs) = Inl DegenerateGeometry"
          by (intro "1.hyps" [OF l r, of k]) simp_all
        with l r show ?thesis
          by simp
      qed
    qed
  qed
qed auto


text \<open>
  C8. When two consecutive segments of the filtered path are parallel in the XY
  plane, so that their offset lines are parallel or coincident, the builder
  fails with DegenerateGeometry: the intersection module raises it, and the
  builder lets it pass. The filter is any function, the input is one the
  validation accepts, and no segment of the filtered path has length zero in
  the XY plane.
\<close>

theorem parallel_offsets_fail:
  assumes "2 \<le> length polygon" and "0 < options_width opts"
    and "distinctXY (rp polygon)"
    and "j + 2 < length (rp polygon)"
    and "turn (rp polygon ! j) (rp polygon ! (j + 1)) (rp polygon ! (j + 2)) = 0"
  shows "ribbonWith rp intersect2D polygon opts = Inl DegenerateGeometry"
proof -
  let ?ps = "rp polygon"
  let ?w = "options_width opts"
  let ?cs = "centerSegments ?ps"
  let ?ls = "map (leftSegment ?w) ?cs"
  let ?rs = "map (rightSegment ?w) ?cs"
  from assms(4) have n: "j + 1 < length ?cs"
    by (simp add: length_centerSegments)
  from assms(4) have c: "?cs ! j = newLineSegment (?ps ! j) (?ps ! Suc j)"
    "?cs ! Suc j = newLineSegment (?ps ! Suc j) (?ps ! Suc (Suc j))"
    using centerSegments_nth [of j ?ps] centerSegments_nth [of "Suc j" ?ps]
    by simp_all
  from n have "?ls ! j = leftSegment ?w (?cs ! j)" "?ls ! (j + 1) = leftSegment ?w (?cs ! Suc j)"
    by simp_all
  then have "det2D (fromPoint (?ls ! j), toPoint (?ls ! j))
              (fromPoint (?ls ! (j + 1)), toPoint (?ls ! (j + 1)))
             = turn (?ps ! j) (?ps ! Suc j) (?ps ! Suc (Suc j))"
    by (simp only: c det2D_offset)
  with assms(5) have "det2D (fromPoint (?ls ! j), toPoint (?ls ! j))
              (fromPoint (?ls ! (j + 1)), toPoint (?ls ! (j + 1))) = 0"
    by simp
  with n have "intersections intersect2D ?ls ?rs = Inl DegenerateGeometry"
    by (intro intersections_parallel [of j]) simp_all
  with assms(1,2) show ?thesis
    by (simp add: ribbonWith_def geometry_def jointsOf_def)
qed

text \<open>Three points in a line, passed on by a filter that removes nothing.\<close>

theorem parallel_offsets_fail_witness:
  "ribbonWith (\<lambda>ps. ps) intersect2D [(0, 0, 0), (1, 0, 0), (2, 0, 0)]
       \<lparr> options_width = 1, options_closed = None \<rparr> = Inl DegenerateGeometry"
  using parallel_offsets_fail [of "[(0, 0, 0), (1, 0, 0), (2, 0, 0)]"
      "\<lparr> options_width = 1, options_closed = None \<rparr>" "\<lambda>ps. ps" 0]
  by (simp add: turn_def)

section \<open>The inside of a bend\<close>

lemma side_choice:
  fixes ax ay bx "by" w la lb T z :: real
  assumes la: "0 < la" "la\<^sup>2 = ax\<^sup>2 + ay\<^sup>2"
    and lb: "0 < lb" "lb\<^sup>2 = bx\<^sup>2 + by\<^sup>2"
    and w: "0 < w"
    and T: "T = ax * by - ay * bx" "T \<noteq> 0"
  defines "e \<equiv> w * ((ax * bx + ay * by) / la - lb) / T"
  shows "(((1 + e) * ax)\<^sup>2 + ((1 + e) * ay)\<^sup>2 + z\<^sup>2 < ((1 - e) * ax)\<^sup>2 + ((1 - e) * ay)\<^sup>2 + z\<^sup>2)
           \<longleftrightarrow> 0 < T"
proof -
  define D where "D = ax * bx + ay * by"
  have "(ax\<^sup>2 + ay\<^sup>2) * (bx\<^sup>2 + by\<^sup>2) = D\<^sup>2 + (ax * by - ay * bx)\<^sup>2"
    unfolding D_def by (simp add: power2_eq_square algebra_simps)
  then have "(la * lb)\<^sup>2 = D\<^sup>2 + T\<^sup>2"
    by (simp only: power_mult_distrib la(2) lb(2) T(1))
  then have "D\<^sup>2 < (la * lb)\<^sup>2"
    using T(2) by simp
  then have "D < la * lb"
  proof (rule power2_less_imp_less)
    show "0 \<le> la * lb"
      using la(1) lb(1) by simp
  qed
  then have neg: "D / la - lb < 0"
    using la(1) by (simp add: field_simps)
  have l2: "0 < la\<^sup>2"
    using la(1) by simp
  have A: "((1 + e) * ax)\<^sup>2 + ((1 + e) * ay)\<^sup>2 + z\<^sup>2 = (1 + e)\<^sup>2 * la\<^sup>2 + z\<^sup>2"
    by (simp only: la(2) power_mult_distrib distrib_left)
  have B: "((1 - e) * ax)\<^sup>2 + ((1 - e) * ay)\<^sup>2 + z\<^sup>2 = (1 - e)\<^sup>2 * la\<^sup>2 + z\<^sup>2"
    by (simp only: la(2) power_mult_distrib distrib_left)
  have C: "(1 - e)\<^sup>2 - (1 + e)\<^sup>2 = - 4 * e"
    by (simp add: power2_eq_square algebra_simps)
  have "(((1 + e) * ax)\<^sup>2 + ((1 + e) * ay)\<^sup>2 + z\<^sup>2 < ((1 - e) * ax)\<^sup>2 + ((1 - e) * ay)\<^sup>2 + z\<^sup>2)
          \<longleftrightarrow> (1 + e)\<^sup>2 < (1 - e)\<^sup>2"
    unfolding A B using l2 by simp
  also have "\<dots> \<longleftrightarrow> e < 0"
    using C by linarith
  also have "\<dots> \<longleftrightarrow> (D / la - lb) / T < 0"
  proof -
    have "e = w * ((D / la - lb) / T)"
      by (simp add: e_def D_def)
    moreover have "w * ((D / la - lb) / T) < 0 \<longleftrightarrow> (D / la - lb) / T < 0"
      using w by (simp only: mult_less_0_iff) auto
    ultimately show ?thesis
      by (simp only:)
  qed
  also have "\<dots> \<longleftrightarrow> 0 < T"
    using neg T(2) by (simp add: divide_less_0_iff)
  finally show ?thesis .
qed

lemma miter_param:
  fixes ax ay bx "by" w la lb T :: real
  assumes la: "0 < la" and lb: "0 < lb" "lb\<^sup>2 = bx\<^sup>2 + by\<^sup>2"
    and T: "T = ax * by - ay * bx" "T \<noteq> 0"
  shows "((ax + w * (- by / lb - - ay / la)) * by - (ay + w * (bx / lb - ax / la)) * bx) / T
           = 1 + w * ((ax * bx + ay * by) / la - lb) / T"
proof -
  have s: "by * by + bx * bx = lb * lb"
    using lb(2) by (simp add: power2_eq_square)
  have "(ax + w * (- by / lb - - ay / la)) * by - (ay + w * (bx / lb - ax / la)) * bx
          = T + w * ((ax * bx + ay * by) / la - (by * by + bx * bx) / lb)"
    unfolding T(1) using la lb(1) by (simp add: field_simps)
  also have "\<dots> = T + w * ((ax * bx + ay * by) / la - lb)"
    unfolding s using lb(1) by simp
  finally show ?thesis
    using T(2) by (simp add: add_divide_distrib)
qed

lemma offsetDir_segment:
  fixes ax ay az bx "by" bz :: real
  defines "l \<equiv> sqrt ((bx - ax)\<^sup>2 + (by - ay)\<^sup>2)"
  assumes ne: "ax \<noteq> bx \<or> ay \<noteq> by"
  shows "offsetDir (newLineSegment (ax, ay, az) (bx, by, bz))
           = (- (by - ay) / l, (bx - ax) / l, 0)"
proof -
  define dx dy dz where "dx = bx - ax" and "dy = by - ay" and "dz = bz - az"
  define L where "L = sqrt (dx * dx + dy * dy + dz * dz)"
  have pos: "0 < dx\<^sup>2 + dy\<^sup>2"
    using ne unfolding dx_def dy_def by (auto simp: sum_power2_gt_zero_iff)
  then have l: "0 < l" "l = sqrt (dx\<^sup>2 + dy\<^sup>2)"
    unfolding l_def dx_def dy_def by simp_all
  have "0 < dx * dx + dy * dy + dz * dz"
    using pos by (simp add: power2_eq_square add_pos_nonneg)
  then have L: "0 < L"
    unfolding L_def by simp
  have len: "v3_length (- (dy / L), dx / L, 0) = l / L"
  proof -
    have "- (dy / L) * - (dy / L) + dx / L * (dx / L) + 0 * 0 = (dx\<^sup>2 + dy\<^sup>2) / L\<^sup>2"
      by (simp add: power2_eq_square add_divide_distrib)
    then have "v3_length (- (dy / L), dx / L, 0) = sqrt ((dx\<^sup>2 + dy\<^sup>2) / L\<^sup>2)"
      by (simp only: v3_length.simps)
    also have "\<dots> = l / L"
      using L by (simp add: real_sqrt_divide l(2))
    finally show ?thesis .
  qed
  have "offsetDir (newLineSegment (ax, ay, az) (bx, by, bz))
          = v3_norm (- (dy / L), dx / L, 0)"
    by (simp add: offsetDir_def newLineSegment_def dx_def dy_def dz_def L_def)
  also have "\<dots> = (- (dy / L) / (l / L), dx / L / (l / L), 0 / (l / L))"
    by (simp only: v3_norm.simps len)
  also have "\<dots> = (- dy / l, dx / l, 0)"
    using L by simp
  finally show ?thesis
    by (simp add: dx_def dy_def)
qed

lemma intersect2D_param:
  fixes x1 y1 z1 x3 y3 z3 ax ay bx "by" za zb :: real
  defines "T \<equiv> ax * by - ay * bx"
  assumes T: "T \<noteq> 0"
  shows "intersect2D ((x1, y1, z1), (x1 + ax, y1 + ay, za)) ((x3, y3, z3), (x3 + bx, y3 + by, zb))
           = Inr (x1 + ((x3 - x1) * by - (y3 - y1) * bx) / T * ax,
                  y1 + ((x3 - x1) * by - (y3 - y1) * bx) / T * ay, 0)"
proof -
  have d: "det2D ((x1, y1, z1), (x1 + ax, y1 + ay, za)) ((x3, y3, z3), (x3 + bx, y3 + by, zb)) = T"
    by (simp add: det2D_def T_def algebra_simps)
  have x: "((x1 * (y1 + ay) - y1 * (x1 + ax)) * (x3 - (x3 + bx))
             - (x1 - (x1 + ax)) * (x3 * (y3 + by) - y3 * (x3 + bx))) / T
           = x1 + ((x3 - x1) * by - (y3 - y1) * bx) / T * ax"
    using T by (simp add: field_simps T_def)
  have y: "((x1 * (y1 + ay) - y1 * (x1 + ax)) * (y3 - (y3 + by))
             - (y1 - (y1 + ay)) * (x3 * (y3 + by) - y3 * (x3 + bx))) / T
           = y1 + ((x3 - x1) * by - (y3 - y1) * bx) / T * ay"
    using T by (simp add: field_simps T_def)
  show ?thesis
    unfolding intersect2D_def Let_def d using T x y by simp
qed


lemma rightSegment_leftSegment: "rightSegment w c = leftSegment (- w) c"
  by (simp add: rightSegment_def leftSegment_def)

lemma offset_intersection:
  fixes px py pz qx qy qz rx ry rz w :: real
  defines "ax \<equiv> qx - px" and "ay \<equiv> qy - py" and "bx \<equiv> rx - qx" and "by \<equiv> ry - qy"
  defines "la \<equiv> sqrt (ax\<^sup>2 + ay\<^sup>2)" and "lb \<equiv> sqrt (bx\<^sup>2 + by\<^sup>2)"
  defines "T \<equiv> ax * by - ay * bx"
  assumes T: "T \<noteq> 0"
  shows "intersect2D
           (fromPoint (leftSegment w (newLineSegment (px, py, pz) (qx, qy, qz))),
            toPoint (leftSegment w (newLineSegment (px, py, pz) (qx, qy, qz))))
           (fromPoint (leftSegment w (newLineSegment (qx, qy, qz) (rx, ry, rz))),
            toPoint (leftSegment w (newLineSegment (qx, qy, qz) (rx, ry, rz))))
         = Inr (px + - ay / la * w + (1 + w * ((ax * bx + ay * by) / la - lb) / T) * ax,
                py + ax / la * w + (1 + w * ((ax * bx + ay * by) / la - lb) / T) * ay,
                0)"
    and "fromPoint (leftSegment w (newLineSegment (px, py, pz) (qx, qy, qz)))
         = (px + - ay / la * w, py + ax / la * w, pz)"
proof -
  have nea: "px \<noteq> qx \<or> py \<noteq> qy" and neb: "qx \<noteq> rx \<or> qy \<noteq> ry"
    using T unfolding T_def ax_def ay_def bx_def by_def by auto
  have la: "0 < la"
    unfolding la_def ax_def ay_def using nea by (auto simp: sum_power2_gt_zero_iff)
  have lb: "0 < lb" "lb\<^sup>2 = bx\<^sup>2 + by\<^sup>2"
    unfolding lb_def bx_def by_def using neb by (auto simp: sum_power2_gt_zero_iff)
  have o0: "offsetDir (newLineSegment (px, py, pz) (qx, qy, qz)) = (- ay / la, ax / la, 0)"
    unfolding la_def ax_def ay_def by (rule offsetDir_segment [OF nea])
  have o1: "offsetDir (newLineSegment (qx, qy, qz) (rx, ry, rz)) = (- by / lb, bx / lb, 0)"
    unfolding lb_def bx_def by_def by (rule offsetDir_segment [OF neb])
  define X0 Y0 X1 Y1 where "X0 = px + - ay / la * w" and "Y0 = py + ax / la * w"
    and "X1 = qx + - by / lb * w" and "Y1 = qy + bx / lb * w"
  have f0: "fromPoint (leftSegment w (newLineSegment (px, py, pz) (qx, qy, qz))) = (X0, Y0, pz)"
    using la by (simp add: leftSegment_def o0)
       (simp add: newLineSegment_def X0_def Y0_def ax_def ay_def field_simps)
  have t0: "toPoint (leftSegment w (newLineSegment (px, py, pz) (qx, qy, qz)))
              = (X0 + ax, Y0 + ay, qz)"
    using la by (simp add: leftSegment_def o0)
       (simp add: newLineSegment_def X0_def Y0_def ax_def ay_def field_simps)
  have f1: "fromPoint (leftSegment w (newLineSegment (qx, qy, qz) (rx, ry, rz))) = (X1, Y1, qz)"
    using lb(1) by (simp add: leftSegment_def o1)
       (simp add: newLineSegment_def X1_def Y1_def bx_def by_def field_simps)
  have t1: "toPoint (leftSegment w (newLineSegment (qx, qy, qz) (rx, ry, rz)))
              = (X1 + bx, Y1 + by, rz)"
    using lb(1) by (simp add: leftSegment_def o1)
       (simp add: newLineSegment_def X1_def Y1_def bx_def by_def field_simps)
  have d: "X1 - X0 = ax + w * (- by / lb - - ay / la)" "Y1 - Y0 = ay + w * (bx / lb - ax / la)"
    unfolding X0_def X1_def Y0_def Y1_def ax_def ay_def by (simp_all add: algebra_simps)
  have k: "((X1 - X0) * by - (Y1 - Y0) * bx) / (ax * by - ay * bx)
             = 1 + w * ((ax * bx + ay * by) / la - lb) / T"
    unfolding d T_def [symmetric] using la lb _ T by (rule miter_param) (simp add: T_def)
  from T have ne: "ax * by - ay * bx \<noteq> 0"
    by (simp add: T_def)
  have E: "intersect2D ((X0, Y0, pz), (X0 + ax, Y0 + ay, qz)) ((X1, Y1, qz), (X1 + bx, Y1 + by, rz))
             = Inr (X0 + (1 + w * ((ax * bx + ay * by) / la - lb) / T) * ax,
                    Y0 + (1 + w * ((ax * bx + ay * by) / la - lb) / T) * ay,
                    0)"
    using intersect2D_param [OF ne, of X0 Y0 pz qz X1 Y1 qz rz] unfolding k .
  show "intersect2D
           (fromPoint (leftSegment w (newLineSegment (px, py, pz) (qx, qy, qz))),
            toPoint (leftSegment w (newLineSegment (px, py, pz) (qx, qy, qz))))
           (fromPoint (leftSegment w (newLineSegment (qx, qy, qz) (rx, ry, rz))),
            toPoint (leftSegment w (newLineSegment (qx, qy, qz) (rx, ry, rz))))
         = Inr (px + - ay / la * w + (1 + w * ((ax * bx + ay * by) / la - lb) / T) * ax,
                py + ax / la * w + (1 + w * ((ax * bx + ay * by) / la - lb) / T) * ay,
                0)"
    unfolding f0 t0 f1 t1 E unfolding X0_def Y0_def ..
  show "fromPoint (leftSegment w (newLineSegment (px, py, pz) (qx, qy, qz)))
         = (px + - ay / la * w, py + ax / la * w, pz)"
    unfolding f0 X0_def Y0_def ..
qed


lemma single_joint_side:
  fixes px py pz qx qy qz rx ry rz w :: real
  assumes rp: "rp polygon = [(px, py, pz), (qx, qy, qz), (rx, ry, rz)]"
    and w: "0 < w"
    and T: "turn (px, py, pz) (qx, qy, qz) (rx, ry, rz) \<noteq> 0"
  shows "\<exists>j. jointsOf rp intersect2D polygon w = Inr [j]
           \<and> (isLeft j \<longleftrightarrow> 0 < turn (px, py, pz) (qx, qy, qz) (rx, ry, rz))"
proof -
  define ax ay bx "by" where "ax = qx - px" and "ay = qy - py" and "bx = rx - qx" and "by = ry - qy"
  define la lb where "la = sqrt (ax\<^sup>2 + ay\<^sup>2)" and "lb = sqrt (bx\<^sup>2 + by\<^sup>2)"
  define T where "T = ax * by - ay * bx"
  define e where "e = w * ((ax * bx + ay * by) / la - lb) / T"
  let ?p = "(px, py, pz)" and ?q = "(qx, qy, qz)" and ?r = "(rx, ry, rz)"
  let ?c0 = "newLineSegment ?p ?q" and ?c1 = "newLineSegment ?q ?r"
  have turn: "turn ?p ?q ?r = T"
    by (simp add: turn_def T_def ax_def ay_def bx_def by_def)
  with T have T0: "T \<noteq> 0"
    by simp
  then have nea: "ax \<noteq> 0 \<or> ay \<noteq> 0" and neb: "bx \<noteq> 0 \<or> by \<noteq> 0"
    unfolding T_def by auto
  have la: "0 < la" "la\<^sup>2 = ax\<^sup>2 + ay\<^sup>2"
    unfolding la_def using nea by (auto simp: sum_power2_gt_zero_iff)
  have lb: "0 < lb" "lb\<^sup>2 = bx\<^sup>2 + by\<^sup>2"
    unfolding lb_def using neb by (auto simp: sum_power2_gt_zero_iff)
  define fl where "fl = (px + - ay / la * w, py + ax / la * w, pz)"
  define fr where "fr = (px + - ay / la * - w, py + ax / la * - w, pz)"
  define il where "il = (px + - ay / la * w + (1 + e) * ax, py + ax / la * w + (1 + e) * ay, 0 :: real)"
  define ir where "ir = (px + - ay / la * - w + (1 - e) * ax, py + ax / la * - w + (1 - e) * ay, 0 :: real)"
  have me: "1 + - w * ((ax * bx + ay * by) / la - lb) / T = 1 - e"
    by (simp add: e_def)
  have T1: "(qx - px) * (ry - qy) - (qy - py) * (rx - qx) \<noteq> 0"
    using T0 by (simp add: T_def ax_def ay_def bx_def by_def)
  have xl: "intersect2D (fromPoint (leftSegment w ?c0), toPoint (leftSegment w ?c0))
              (fromPoint (leftSegment w ?c1), toPoint (leftSegment w ?c1)) = Inr il"
    using offset_intersection(1) [OF T1, where w = w and pz = pz and qz = qz and rz = rz]
    unfolding ax_def [symmetric] ay_def [symmetric] bx_def [symmetric] by_def [symmetric]
      la_def [symmetric] lb_def [symmetric] T_def [symmetric] e_def [symmetric]
      il_def [symmetric] .
  have fl: "fromPoint (leftSegment w ?c0) = fl"
    using offset_intersection(2) [OF T1, where w = w and pz = pz and qz = qz]
    unfolding ax_def [symmetric] ay_def [symmetric] la_def [symmetric] fl_def [symmetric] .
  have xr: "intersect2D (fromPoint (rightSegment w ?c0), toPoint (rightSegment w ?c0))
              (fromPoint (rightSegment w ?c1), toPoint (rightSegment w ?c1)) = Inr ir"
    using offset_intersection(1) [OF T1, where w = "- w" and pz = pz and qz = qz and rz = rz]
    unfolding ax_def [symmetric] ay_def [symmetric] bx_def [symmetric] by_def [symmetric]
      la_def [symmetric] lb_def [symmetric] T_def [symmetric] me
      ir_def [symmetric] rightSegment_leftSegment .
  have fr: "fromPoint (rightSegment w ?c0) = fr"
    using offset_intersection(2) [OF T1, where w = "- w" and pz = pz and qz = qz]
    unfolding ax_def [symmetric] ay_def [symmetric] la_def [symmetric] fr_def [symmetric]
      rightSegment_leftSegment .
  have z: "setZ0 il = il" "setZ0 ir = ir"
    by (simp_all add: il_def ir_def)
  have j: "jointsOf rp intersect2D polygon w
             = Inr [resolveJoint w ?c0 ?c1 il ir fl fr]"
  proof -
    have "intersections intersect2D [leftSegment w ?c0, leftSegment w ?c1]
            [rightSegment w ?c0, rightSegment w ?c1] = Inr ([il], [ir])"
      by (simp add: xl xr z)
    then show ?thesis
      unfolding jointsOf_def rp by (simp add: fl fr Let_def)
  qed
  have dl: "v3_length (v3_sub il fl) = sqrt (((1 + e) * ax)\<^sup>2 + ((1 + e) * ay)\<^sup>2 + pz\<^sup>2)"
    by (simp add: il_def fl_def power2_eq_square)
  have dr: "v3_length (v3_sub ir fr) = sqrt (((1 - e) * ax)\<^sup>2 + ((1 - e) * ay)\<^sup>2 + pz\<^sup>2)"
    by (simp add: ir_def fr_def power2_eq_square)
  have "isLeft (resolveJoint w ?c0 ?c1 il ir fl fr) \<longleftrightarrow> 0 < T"
    unfolding resolveJoint_fields(1) dl dr real_sqrt_less_iff e_def
    using la lb w T_def T0 by (rule side_choice)
  with j turn show ?thesis
    by simp
qed


lemma turn_mirrorY: "turn (mirrorY a) (mirrorY b) (mirrorY c) = - turn a b c"
  by (cases a; cases b; cases c) (simp add: turn_def algebra_simps)

text \<open>
  C9. Let the filtered path be \<open>p0, p1, p2\<close>, bending at \<open>p1\<close> by an angle
  strictly between 0 and 180 degrees, to the left when \<open>turn p0 p1 p2\<close> is
  positive and to the right when it is negative. The builder resolves the one
  joint, and its inside corner is the left intersection exactly when the path
  bends to the left: the side on the inside of the bend. On the mirror image of
  the path, which bends by the same angle to the other side, it chooses the
  opposite side.
\<close>

theorem inside_corner_is_inside_of_bend:
  assumes "rp polygon = [p0, p1, p2]"
    and "rp mirrored = [mirrorY p0, mirrorY p1, mirrorY p2]"
    and "0 < width"
    and "turn p0 p1 p2 \<noteq> 0"
  shows "\<exists>j j'. jointsOf rp intersect2D polygon width = Inr [j]
           \<and> jointsOf rp intersect2D mirrored width = Inr [j']
           \<and> (isLeft j \<longleftrightarrow> 0 < turn p0 p1 p2)
           \<and> (isLeft j' \<longleftrightarrow> \<not> isLeft j)"
proof -
  obtain px py pz where p0: "p0 = (px, py, pz)"
    by (rule prod_cases3)
  obtain qx qy qz where p1: "p1 = (qx, qy, qz)"
    by (rule prod_cases3)
  obtain rx ry rz where p2: "p2 = (rx, ry, rz)"
    by (rule prod_cases3)
  from assms(4) have t': "turn (mirrorY p0) (mirrorY p1) (mirrorY p2) \<noteq> 0"
    by (simp add: turn_mirrorY)
  from single_joint_side [where rp = rp and polygon = polygon,
      OF assms(1) [unfolded p0 p1 p2] assms(3) assms(4) [unfolded p0 p1 p2]]
  obtain j where j: "jointsOf rp intersect2D polygon width = Inr [j]"
    "isLeft j \<longleftrightarrow> 0 < turn p0 p1 p2"
    unfolding p0 p1 p2 by blast
  from single_joint_side [where rp = rp and polygon = mirrored,
      OF assms(2) [unfolded p0 p1 p2 mirrorY.simps] assms(3)
      t' [unfolded p0 p1 p2 mirrorY.simps]]
  obtain j' where j': "jointsOf rp intersect2D mirrored width = Inr [j']"
    "isLeft j' \<longleftrightarrow> 0 < turn (mirrorY p0) (mirrorY p1) (mirrorY p2)"
    unfolding p0 p1 p2 mirrorY.simps by blast
  from j'(2) j(2) assms(4) have "isLeft j' \<longleftrightarrow> \<not> isLeft j"
    unfolding turn_mirrorY by auto
  with j j'(1) show ?thesis
    by blast
qed

text \<open>The L-shaped path bends to the left, its mirror image to the right.\<close>

theorem inside_corner_is_inside_of_bend_witness:
  "\<exists>j j'. jointsOf removeParallel2D intersect2D [(0, 0, 0), (10, 0, 0), (10, 10, 0)] 1 = Inr [j]
     \<and> jointsOf removeParallel2D intersect2D [(0, 0, 0), (10, 0, 0), (10, - 10, 0)] 1 = Inr [j']
     \<and> isLeft j \<and> \<not> isLeft j'"
proof -
  have a: "removeParallel2D [(0, 0, 0), (10, 0, 0), (10, 10, 0)]
             = [(0, 0, 0), (10, 0, 0), (10, 10, 0)]"
    by (simp add: collinear2D_def)
  have b: "removeParallel2D [(0, 0, 0), (10, 0, 0), (10, - 10, 0)]
             = [mirrorY (0, 0, 0), mirrorY (10, 0, 0), mirrorY (10, 10, 0)]"
    by (simp add: collinear2D_def)
  have w: "0 < (1 :: real)"
    by simp
  have t: "turn (0, 0, 0) (10, 0, 0) (10, 10, 0) \<noteq> 0"
    by (simp add: turn_def)
  from inside_corner_is_inside_of_bend [where rp = removeParallel2D
      and polygon = "[(0, 0, 0), (10, 0, 0), (10, 10, 0)]"
      and mirrored = "[(0, 0, 0), (10, 0, 0), (10, - 10, 0)]", OF a b w t]
  show ?thesis
    by (auto simp: turn_def)
qed

end
